theory Spec2Isabelle
  imports
    Complex_Main
    "HOL-Library.AList"
    "HOL-Library.Char_ord"
    "HOL-Library.List_Lexorder"
    "HOL-Library.Multiset"
    "HOL-Library.Sublist"
begin

text \<open>
  A model of \<open>main.py\<close>, the monitor of Binance and on-chain balances with its
  internal blockchain and its HTTP API: the hash chain built by \<open>create_block\<close>,
  one cycle of \<open>monitor_loop\<close> (the spot and on-chain balance updates and the buy
  and sell decision) and the three request handlers. The network, the clock and the
  library functions are arguments of the model; the properties proved hold for all
  of them.
\<close>

section \<open>Python values\<close>

text \<open>
  A Python \<open>float\<close> is either a finite number, one of the two infinities, or NaN.
  A finite float is represented by its exact rational value; the rounding of the
  arithmetic operations to the nearest double is not part of the model, and the two
  zeros are one value. Comparisons follow IEEE 754: every ordered comparison with NaN
  is false.
\<close>

datatype pyfloat = Finite rat | PosInf | NegInf | NaN

fun flt_lt :: "pyfloat \<Rightarrow> pyfloat \<Rightarrow> bool" where
  "flt_lt (Finite a) (Finite b) = (a < b)"
| "flt_lt (Finite a) PosInf = True"
| "flt_lt NegInf (Finite b) = True"
| "flt_lt NegInf PosInf = True"
| "flt_lt _ _ = False"

definition flt_gt :: "pyfloat \<Rightarrow> pyfloat \<Rightarrow> bool" where
  "flt_gt a b = flt_lt b a"

definition flt_le :: "pyfloat \<Rightarrow> pyfloat \<Rightarrow> bool" where
  "flt_le a b = (a \<noteq> NaN \<and> b \<noteq> NaN \<and> \<not> flt_lt b a)"

fun flt_neg :: "pyfloat \<Rightarrow> pyfloat" where
  "flt_neg (Finite a) = Finite (- a)"
| "flt_neg PosInf = NegInf"
| "flt_neg NegInf = PosInf"
| "flt_neg NaN = NaN"

fun flt_add :: "pyfloat \<Rightarrow> pyfloat \<Rightarrow> pyfloat" where
  "flt_add (Finite a) (Finite b) = Finite (a + b)"
| "flt_add NaN _ = NaN"
| "flt_add _ NaN = NaN"
| "flt_add PosInf NegInf = NaN"
| "flt_add NegInf PosInf = NaN"
| "flt_add PosInf _ = PosInf"
| "flt_add NegInf _ = NegInf"
| "flt_add (Finite a) b = b"

definition flt_sub :: "pyfloat \<Rightarrow> pyfloat \<Rightarrow> pyfloat" where
  "flt_sub a b = flt_add a (flt_neg b)"

fun flt_sgn :: "pyfloat \<Rightarrow> rat" where
  "flt_sgn (Finite a) = sgn a"
| "flt_sgn PosInf = 1"
| "flt_sgn NegInf = - 1"
| "flt_sgn NaN = 0"

fun flt_mul :: "pyfloat \<Rightarrow> pyfloat \<Rightarrow> pyfloat" where
  "flt_mul (Finite a) (Finite b) = Finite (a * b)"
| "flt_mul NaN _ = NaN"
| "flt_mul _ NaN = NaN"
| "flt_mul a b =
     (if flt_sgn a * flt_sgn b = 0 then NaN
      else if 0 < flt_sgn a * flt_sgn b then PosInf else NegInf)"

datatype exn =
    KeyError
  | TypeError
  | ValueError
  | AttributeError
  | ZeroDivisionError
  | OverflowError
  | RequestError string

text \<open>
  Python's \<open>a / b\<close> on floats raises \<open>ZeroDivisionError\<close> when \<open>b\<close> is zero.
\<close>

fun flt_div :: "pyfloat \<Rightarrow> pyfloat \<Rightarrow> exn + pyfloat" where
  "flt_div a (Finite b) =
     (if b = 0 then Inl ZeroDivisionError
      else (case a of
              Finite x \<Rightarrow> Inr (Finite (x / b))
            | NaN \<Rightarrow> Inr NaN
            | PosInf \<Rightarrow> Inr (if 0 < b then PosInf else NegInf)
            | NegInf \<Rightarrow> Inr (if 0 < b then NegInf else PosInf)))"
| "flt_div a NaN = Inr NaN"
| "flt_div (Finite x) b = Inr (Finite 0)"
| "flt_div a b = Inr NaN"

text \<open>
  The values that a JSON document holds and that occur in the dictionaries of the
  program: \<open>None\<close>, booleans, integers of any size, floats, strings, lists and
  dictionaries with string keys. A dictionary is an association list in insertion
  order; \<open>d[k] = v\<close> is \<open>AList.update k v d\<close> and \<open>d.get(k)\<close> is
  \<open>map_of d k\<close>.
\<close>

datatype pyval =
    PNone
  | PBool bool
  | PInt int
  | PFloat pyfloat
  | PStr string
  | PList "pyval list"
  | PDict "(string \<times> pyval) list"

type_synonym pydict = "(string \<times> pyval) list"

text \<open>
  The library functions the program calls and that are not modelled further:
  \<open>hashlib.sha256(s.encode()).hexdigest()\<close>, the JSON encoding of a string, the
  \<open>repr\<close> of a finite float, and the parser behind \<open>float(s)\<close> (\<open>None\<close> when
  it raises \<open>ValueError\<close>).
\<close>

record pylib =
  sha256_hexdigest :: "string \<Rightarrow> string"
  json_string :: "string \<Rightarrow> string"
  float_repr :: "rat \<Rightarrow> string"
  parse_float :: "string \<Rightarrow> pyfloat option"

section \<open>json.dumps with sort_keys=True\<close>

text \<open>
  \<open>json.dumps\<close> runs with its default \<open>allow_nan=True\<close>: a non-finite float is
  written as the token \<open>NaN\<close>, \<open>Infinity\<close> or \<open>-Infinity\<close>, and no error is raised.
\<close>

fun json_float :: "pylib \<Rightarrow> pyfloat \<Rightarrow> string" where
  "json_float L (Finite q) = float_repr L q"
| "json_float L NaN = ''NaN''"
| "json_float L PosInf = ''Infinity''"
| "json_float L NegInf = ''-Infinity''"

fun join :: "string \<Rightarrow> string list \<Rightarrow> string" where
  "join sep [] = []"
| "join sep [x] = x"
| "join sep (x # y # ys) = x @ sep @ join sep (y # ys)"

text \<open>The decimal text of an integer, as \<open>str\<close> writes it.\<close>

fun str_nat :: "nat \<Rightarrow> string" where
  "str_nat n =
     (if n < 10 then [char_of (48 + n)]
      else str_nat (n div 10) @ [char_of (48 + n mod 10)])"

definition str_int :: "int \<Rightarrow> string" where
  "str_int i = (if i < 0 then ''-'' @ str_nat (nat (- i)) else str_nat (nat i))"

fun json_dumps :: "pylib \<Rightarrow> pyval \<Rightarrow> string" where
  "json_dumps L (PStr s) = json_string L s"
| "json_dumps L (PFloat f) = json_float L f"
| "json_dumps L (PInt i) = str_int i"
| "json_dumps L (PBool b) = (if b then ''true'' else ''false'')"
| "json_dumps L PNone = ''null''"
| "json_dumps L (PList xs) = ''['' @ join '', '' (map (json_dumps L) xs) @ '']''"
| "json_dumps L (PDict kvs) =
     ''{'' @ join '', ''
        (map (\<lambda>kv. json_string L (fst kv) @ '': '' @ json_dumps L (snd kv))
           (sort_key fst kvs)) @ ''}''"

section \<open>The internal blockchain\<close>

definition genesis :: string where
  "genesis = replicate 64 CHR ''0''"

text \<open>
  \<open>create_block\<close> reads and appends to the global list \<open>blockchain\<close>; the model
  takes the list and returns the new block together with the new list. The value of
  \<open>time.time()\<close> is the argument \<open>now\<close>. \<open>blockchain[-1]["hash"]\<close> raises
  \<open>KeyError\<close> when the last block has no such key, and \<open>prev_hash + block_data\<close>
  raises \<open>TypeError\<close> when the stored hash is not a string.
\<close>

definition create_block ::
  "pylib \<Rightarrow> pyfloat \<Rightarrow> pydict \<Rightarrow> pydict list \<Rightarrow> exn + (pydict \<times> pydict list)" where
  "create_block L now operation blockchain =
     (case (if blockchain \<noteq> []
            then (case map_of (last blockchain) ''hash'' of
                    None \<Rightarrow> Inl KeyError
                  | Some v \<Rightarrow> Inr v)
            else Inr (PStr genesis)) of
        Inl e \<Rightarrow> Inl e
      | Inr (PStr prev_hash) \<Rightarrow>
          (let block_data = json_dumps L (PDict operation);
               block_hash = sha256_hexdigest L (prev_hash @ block_data);
               block = [(''timestamp'', PFloat now),
                        (''operation'', PDict operation),
                        (''hash'', PStr block_hash),
                        (''prev_hash'', PStr prev_hash)]
           in Inr (block, blockchain @ [block]))
      | Inr _ \<Rightarrow> Inl TypeError)"

section \<open>State of the process and the outside world\<close>

datatype level = INFO | ERROR

datatype logmsg =
    SpotLine string pyfloat pyfloat pyfloat
  | OnchainLine string pyfloat pyfloat
  | OnchainError string exn
  | BuyRecorded pydict
  | BuyError exn
  | SellRecorded pydict
  | SellError exn
  | GeneralError exn

record order_params =
  symbol :: string
  side :: string
  order_type :: string
  quantity :: pyfloat

text \<open>
  The module-level variables \<open>blockchain\<close>, \<open>prev_balances\<close> and
  \<open>prev_onchain_btc\<close>, the lines written through \<open>logging\<close>, and the orders
  that \<open>place_order\<close> has posted to the exchange, in the order of the calls.
  Console output is not modelled.
\<close>

record state =
  blockchain :: "pydict list"
  prev_balances :: "(string \<times> pyfloat) list"
  prev_onchain_btc :: "(string \<times> pyfloat) list"
  log :: "(level \<times> logmsg) list"
  orders_sent :: "order_params list"

definition init_state :: state where
  "init_state = \<lparr>blockchain = [], prev_balances = [], prev_onchain_btc = [],
     log = [], orders_sent = []\<rparr>"

text \<open>
  One entry of the \<open>balances\<close> list of the account JSON, a JSON object whose
  three fields hold any JSON value or are missing: \<open>b["asset"]\<close> raises
  \<open>KeyError\<close> when the key is missing, \<open>b.get("free", 0)\<close> does not.
\<close>

record raw_balance =
  asset :: "pyval option"
  free :: "pyval option"
  locked :: "pyval option"

text \<open>
  What the outside world answers during one poll cycle or one request.
  \<^item> \<open>now\<close>: the clock read by \<open>create_block\<close>.
  \<^item> \<open>spot_account\<close>: the \<open>balances\<close> of the account JSON, a list of JSON
    objects (empty when the key is missing); or the exception that
    \<open>get_spot_account\<close> raises, or that \<open>get_nonzero_balances\<close> raises on a
    document of another shape (not an object, \<open>balances\<close> not a list of objects),
    in both cases before anything is written.
  \<^item> \<open>ticker\<close>: the price of a pair, or the exception raised inside the
    \<open>try\<close> of \<open>get_brl_price\<close>.
  \<^item> \<open>onchain_sats\<close>: the JSON value found at
    \<open>data["data"][address]["address"]["balance"]\<close>, or the exception of the request
    or of these lookups.
  \<^item> \<open>post_order\<close>: the answer of the exchange to a posted order, or the
    exception of \<open>place_order\<close>.
\<close>

record world =
  now :: pyfloat
  spot_account :: "exn + raw_balance list"
  ticker :: "string \<Rightarrow> exn + pyfloat"
  onchain_sats :: "string \<Rightarrow> exn + pyval"
  post_order :: "order_params \<Rightarrow> exn + pyval"

section \<open>Helpers on Python values\<close>

text \<open>\<open>str.upper()\<close> on ASCII letters; other characters are left as they are.\<close>

definition upper_char :: "char \<Rightarrow> char" where
  "upper_char c =
     (if 97 \<le> (of_char c :: nat) \<and> (of_char c :: nat) \<le> 122
      then char_of ((of_char c :: nat) - 32) else c)"

definition upper :: "string \<Rightarrow> string" where
  "upper s = map upper_char s"

text \<open>\<open>v.upper()\<close>: only a string has the method.\<close>

fun py_upper :: "pyval \<Rightarrow> exn + string" where
  "py_upper (PStr s) = Inr (upper s)"
| "py_upper _ = Inl AttributeError"

text \<open>
  The conversion of an integer to a float raises \<open>OverflowError\<close> when the integer
  rounds to a value beyond the largest double, that is from \<open>2^1024 - 2^970\<close> on.
\<close>

definition int_to_float :: "int \<Rightarrow> exn + pyfloat" where
  "int_to_float i =
     (if \<bar>i\<bar> < 2 ^ 1024 - 2 ^ 970 then Inr (Finite (of_int i)) else Inl OverflowError)"

text \<open>\<open>float(v)\<close>; a boolean is the integer 1 or 0.\<close>

fun py_float :: "pylib \<Rightarrow> pyval \<Rightarrow> exn + pyfloat" where
  "py_float L (PFloat f) = Inr f"
| "py_float L (PInt i) = int_to_float i"
| "py_float L (PBool b) = Inr (Finite (if b then 1 else 0))"
| "py_float L (PStr s) =
     (case parse_float L s of None \<Rightarrow> Inl ValueError | Some f \<Rightarrow> Inr f)"
| "py_float L _ = Inl TypeError"

text \<open>\<open>v / x\<close> for a float \<open>x\<close>: an integer or boolean \<open>v\<close> is converted first.\<close>

fun py_div_float :: "pyval \<Rightarrow> pyfloat \<Rightarrow> exn + pyfloat" where
  "py_div_float (PFloat f) x = flt_div f x"
| "py_div_float (PInt i) x =
     (case int_to_float i of Inl e \<Rightarrow> Inl e | Inr f \<Rightarrow> flt_div f x)"
| "py_div_float (PBool b) x = flt_div (Finite (if b then 1 else 0)) x"
| "py_div_float _ x = Inl TypeError"

text \<open>Truth value of a Python object, and \<open>b.get(k, 0) or 0\<close>.\<close>

fun truthy :: "pyval \<Rightarrow> bool" where
  "truthy (PStr s) = (s \<noteq> [])"
| "truthy (PFloat f) = (f \<noteq> Finite 0)"
| "truthy (PInt i) = (i \<noteq> 0)"
| "truthy (PBool b) = b"
| "truthy PNone = False"
| "truthy (PList xs) = (xs \<noteq> [])"
| "truthy (PDict kvs) = (kvs \<noteq> [])"

definition get_or_zero :: "pyval option \<Rightarrow> pyval" where
  "get_or_zero v =
     (case v of None \<Rightarrow> PInt 0
      | Some x \<Rightarrow> if truthy x then x else PInt 0)"

text \<open>
  \<open>k in v\<close> for a string \<open>k\<close>: a key of a dictionary, an element of a list, a
  part of a string; any other value is not iterable.
\<close>

fun is_substring :: "string \<Rightarrow> string \<Rightarrow> bool" where
  "is_substring k [] = (k = [])"
| "is_substring k (c # cs) = (prefix k (c # cs) \<or> is_substring k cs)"

fun py_contains :: "string \<Rightarrow> pyval \<Rightarrow> exn + bool" where
  "py_contains k (PDict d) = Inr (map_of d k \<noteq> None)"
| "py_contains k (PList xs) = Inr (PStr k \<in> set xs)"
| "py_contains k (PStr s) = Inr (is_substring k s)"
| "py_contains k _ = Inl TypeError"

text \<open>
  \<open>v[k]\<close> for a string \<open>k\<close>: only a dictionary is indexed by a string.
\<close>

fun py_getitem :: "pyval \<Rightarrow> string \<Rightarrow> exn + pyval" where
  "py_getitem (PDict d) k = (case map_of d k of None \<Rightarrow> Inl KeyError | Some v \<Rightarrow> Inr v)"
| "py_getitem _ k = Inl TypeError"

text \<open>
  The keys of the dictionary that \<open>get_nonzero_balances\<close> builds: any hashable
  value. Equal numbers are one key whatever their type (\<open>1 == 1.0 == True\<close>); a
  list or a dictionary is not hashable.
\<close>

datatype pykey = KStr string | KNum pyfloat | KNone

fun hash_key :: "pyval \<Rightarrow> exn + pykey" where
  "hash_key (PStr s) = Inr (KStr s)"
| "hash_key (PInt i) = Inr (KNum (Finite (of_int i)))"
| "hash_key (PBool b) = Inr (KNum (Finite (if b then 1 else 0)))"
| "hash_key (PFloat f) = Inr (KNum f)"
| "hash_key PNone = Inr KNone"
| "hash_key _ = Inl TypeError"

fun str_exn :: "exn \<Rightarrow> string" where
  "str_exn KeyError = ''KeyError''"
| "str_exn TypeError = ''TypeError''"
| "str_exn ValueError = ''ValueError''"
| "str_exn AttributeError = ''AttributeError''"
| "str_exn ZeroDivisionError = ''float division by zero''"
| "str_exn OverflowError = ''int too large to convert to float''"
| "str_exn (RequestError m) = m"

section \<open>Exchange and explorer functions\<close>

fun nonzero_loop ::
  "pylib \<Rightarrow> raw_balance list \<Rightarrow> (pykey \<times> pyfloat) list \<Rightarrow> exn + (pykey \<times> pyfloat) list" where
  "nonzero_loop L [] out = Inr out"
| "nonzero_loop L (b # bs) out =
     (case py_float L (get_or_zero (free b)) of
        Inl e \<Rightarrow> Inl e
      | Inr fr \<Rightarrow>
          (case py_float L (get_or_zero (locked b)) of
             Inl e \<Rightarrow> Inl e
           | Inr lk \<Rightarrow>
               (let total = flt_add fr lk in
                if flt_gt total (Finite 0)
                then (case asset b of
                        None \<Rightarrow> Inl KeyError
                      | Some a \<Rightarrow>
                          (case hash_key a of
                             Inl e \<Rightarrow> Inl e
                           | Inr k \<Rightarrow> nonzero_loop L bs (AList.update k total out)))
                else nonzero_loop L bs out)))"

definition get_nonzero_balances ::
  "pylib \<Rightarrow> raw_balance list \<Rightarrow> exn + (pykey \<times> pyfloat) list" where
  "get_nonzero_balances L account_json = nonzero_loop L account_json []"

definition get_brl_price :: "world \<Rightarrow> string \<Rightarrow> pyfloat" where
  "get_brl_price W a =
     (if a = ''BRL'' then Finite 1
      else (case ticker W (a @ ''BRL'') of
              Inl e \<Rightarrow> Finite 0
            | Inr price \<Rightarrow> price))"

text \<open>
  \<open>place_order\<close> builds the parameters of a market order, posts them and returns
  the answer or raises. The request is recorded in \<open>orders_sent\<close>; the timestamp
  and the signature of the query string are left out.
\<close>

definition place_order ::
  "world \<Rightarrow> string \<Rightarrow> string \<Rightarrow> pyfloat \<Rightarrow> state \<Rightarrow> (exn + pyval) \<times> state" where
  "place_order W symb sd qty s =
     (let params = \<lparr>symbol = symb, side = upper sd, order_type = ''MARKET'',
                     quantity = qty\<rparr>
      in (post_order W params, s\<lparr>orders_sent := orders_sent s @ [params]\<rparr>))"

definition get_btc_onchain_balance :: "world \<Rightarrow> string \<Rightarrow> exn + pyfloat" where
  "get_btc_onchain_balance W address =
     (case onchain_sats W address of
        Inl e \<Rightarrow> Inl e
      | Inr balance_sats \<Rightarrow> py_div_float balance_sats (Finite 100000000))"

section \<open>One cycle of monitor\_loop\<close>

definition dict_get :: "(string \<times> pyfloat) list \<Rightarrow> string \<Rightarrow> pyfloat \<Rightarrow> pyfloat" where
  "dict_get d k dflt = (case map_of d k of None \<Rightarrow> dflt | Some v \<Rightarrow> v)"

text \<open>
  The \<open>for asset, amount in nonzero.items()\<close> loop, which returns the exception
  that ended it, if any, and the state reached. For an asset that is a string
  nothing in the body raises: \<open>get_brl_price\<close> catches every exception of the
  lookup. For an asset that is not a string, \<open>prev_balances.get\<close> finds nothing
  and \<open>asset + "BRL"\<close>, which stands before the \<open>try\<close> of \<open>get_brl_price\<close>,
  raises \<open>TypeError\<close>: the loop ends there, with what the earlier iterations have
  written. So only strings become keys of \<open>prev_balances\<close>.
\<close>

fun spot_loop :: "world \<Rightarrow> (pykey \<times> pyfloat) list \<Rightarrow> state \<Rightarrow> exn option \<times> state" where
  "spot_loop W [] s = (None, s)"
| "spot_loop W (item # rest) s =
     (case fst item of
        KStr a \<Rightarrow>
          (let amount = snd item;
               prev = dict_get (prev_balances s) a (Finite 0);
               diff = flt_sub amount prev;
               price_brl = get_brl_price W a;
               value_brl = flt_mul amount price_brl
           in spot_loop W rest
                (s\<lparr>prev_balances := AList.update a amount (prev_balances s),
                   log := log s @ [(INFO, SpotLine a amount value_brl diff)]\<rparr>))
      | _ \<Rightarrow> (Some TypeError, s))"

definition spot_section :: "pylib \<Rightarrow> world \<Rightarrow> state \<Rightarrow> exn option \<times> state" where
  "spot_section L W s =
     (case spot_account W of
        Inl e \<Rightarrow> (Some e, s)
      | Inr acct \<Rightarrow>
          (case get_nonzero_balances L acct of
             Inl e \<Rightarrow> (Some e, s)
           | Inr nonzero \<Rightarrow> spot_loop W nonzero s))"

text \<open>
  The \<open>for addr in btc_addresses\<close> loop: a failed lookup is logged and the address
  skipped.
\<close>

fun onchain_loop :: "world \<Rightarrow> string list \<Rightarrow> state \<Rightarrow> state" where
  "onchain_loop W [] s = s"
| "onchain_loop W (addr # rest) s =
     (case get_btc_onchain_balance W addr of
        Inl e \<Rightarrow> onchain_loop W rest (s\<lparr>log := log s @ [(ERROR, OnchainError addr e)]\<rparr>)
      | Inr bal \<Rightarrow>
          (let prev = dict_get (prev_onchain_btc s) addr (Finite 0);
               delta = flt_sub bal prev
           in onchain_loop W rest
                (s\<lparr>prev_onchain_btc := AList.update addr bal (prev_onchain_btc s),
                   log := log s @ [(INFO, OnchainLine addr bal delta)]\<rparr>)))"

definition onchain_section :: "string list \<Rightarrow> world \<Rightarrow> state \<Rightarrow> state" where
  "onchain_section btc_addresses W s =
     (if btc_addresses \<noteq> [] then onchain_loop W btc_addresses s else s)"

text \<open>
  The two statements that open each of the three \<open>try\<close> blocks of the program:
  \<open>order = place_order("BTCBRL", side, qty)\<close> followed by
  \<open>block = create_block({"side": side, "asset": "BTC", "quantity": qty, "price": price})\<close>.
  An exception of either leaves through \<open>Inl\<close>, with the state as it was when the
  exception was raised.
\<close>

definition order_and_record ::
  "pylib \<Rightarrow> world \<Rightarrow> string \<Rightarrow> pyfloat \<Rightarrow> pyfloat \<Rightarrow> state \<Rightarrow> (exn + (pyval \<times> pydict)) \<times> state" where
  "order_and_record L W sd qty price s =
     (case place_order W ''BTCBRL'' sd qty s of
        (Inl e, s1) \<Rightarrow> (Inl e, s1)
      | (Inr order, s1) \<Rightarrow>
          (case create_block L (now W)
                  [(''side'', PStr sd), (''asset'', PStr ''BTC''),
                   (''quantity'', PFloat qty), (''price'', PFloat price)]
                  (blockchain s1) of
             Inl e \<Rightarrow> (Inl e, s1)
           | Inr (block, chain) \<Rightarrow> (Inr (order, block), s1\<lparr>blockchain := chain\<rparr>)))"

text \<open>
  The literal \<open>0.0001\<close> denotes the double nearest to one ten-thousandth, which is
  \<open>7378697629483821 / 2^66\<close>.
\<close>

definition min_btc :: pyfloat where
  "min_btc = Finite (7378697629483821 / 73786976294838206464)"

text \<open>
  The buy and sell decision. The division \<open>brl_balance / btc_price\<close> stands before
  the \<open>try\<close>, so its exception would leave the section.
\<close>

definition trade_section :: "pylib \<Rightarrow> world \<Rightarrow> state \<Rightarrow> exn + state" where
  "trade_section L W s =
     (let btc_price = get_brl_price W ''BTC'' in
      if flt_gt btc_price (Finite 0) then
        if flt_lt btc_price (Finite 100000) then
          (let brl_balance = dict_get (prev_balances s) ''BRL'' (Finite 0) in
           if flt_gt brl_balance (Finite 10) then
             (case flt_div brl_balance btc_price of
                Inl e \<Rightarrow> Inl e
              | Inr qty_to_buy \<Rightarrow>
                  (case order_and_record L W ''BUY'' qty_to_buy btc_price s of
                     (Inr (order, block), s1) \<Rightarrow>
                       Inr (s1\<lparr>log := log s1 @ [(INFO, BuyRecorded block)]\<rparr>)
                   | (Inl e, s1) \<Rightarrow>
                       Inr (s1\<lparr>log := log s1 @ [(ERROR, BuyError e)]\<rparr>)))
           else Inr s)
        else if flt_gt btc_price (Finite 120000) then
          (let btc_balance = dict_get (prev_balances s) ''BTC'' (Finite 0) in
           if flt_gt btc_balance min_btc then
             (case order_and_record L W ''SELL'' btc_balance btc_price s of
                (Inr (order, block), s1) \<Rightarrow>
                  Inr (s1\<lparr>log := log s1 @ [(INFO, SellRecorded block)]\<rparr>)
              | (Inl e, s1) \<Rightarrow>
                  Inr (s1\<lparr>log := log s1 @ [(ERROR, SellError e)]\<rparr>))
           else Inr s)
        else Inr s
      else Inr s)"

text \<open>
  The body of \<open>while True\<close>: the outer \<open>except\<close> logs whatever the sections raise
  and the loop goes on. An exception of the spot section leaves the state as the
  section had made it and skips the other two sections; the trade section raises
  only before it orders.
\<close>

definition poll_cycle :: "pylib \<Rightarrow> string list \<Rightarrow> world \<Rightarrow> state \<Rightarrow> state" where
  "poll_cycle L btc_addresses W s =
     (case spot_section L W s of
        (Some e, s1) \<Rightarrow> s1\<lparr>log := log s1 @ [(ERROR, GeneralError e)]\<rparr>
      | (None, s1) \<Rightarrow>
          (let s2 = onchain_section btc_addresses W s1 in
           case trade_section L W s2 of
             Inl e \<Rightarrow> s2\<lparr>log := log s2 @ [(ERROR, GeneralError e)]\<rparr>
           | Inr s3 \<Rightarrow> s3))"

section \<open>The HTTP API\<close>

datatype response = Response nat pyval

definition float_dict :: "(string \<times> pyfloat) list \<Rightarrow> pyval" where
  "float_dict d = PDict (map (\<lambda>kv. (fst kv, PFloat (snd kv))) d)"

definition api_saldo :: "state \<Rightarrow> response" where
  "api_saldo s =
     Response 200 (PDict [(''spot'', float_dict (prev_balances s)),
                          (''onchain'', float_dict (prev_onchain_btc s))])"

definition api_blockchain :: "state \<Rightarrow> response" where
  "api_blockchain s = Response 200 (PList (map PDict (blockchain s)))"

definition msg_fields :: string where
  "msg_fields = ''Envie JSON com '' @ [CHR 0x27] @ ''side'' @ [CHR 0x27] @ '' e ''
     @ [CHR 0x27] @ ''quantity'' @ [CHR 0x27]"

text \<open>
  \<open>api_ordem\<close> with the value of \<open>request.json\<close> given as \<open>data\<close>: any JSON
  value, \<open>PNone\<close> for \<open>null\<close>. The guard \<open>not data or "side" not in data or
  "quantity" not in data\<close> is evaluated from left to right and raises on a truthy
  value that is not iterable. An exception raised before the \<open>try\<close> leaves the
  handler (\<open>Inl\<close>).
\<close>

definition api_ordem ::
  "pylib \<Rightarrow> world \<Rightarrow> pyval \<Rightarrow> state \<Rightarrow> (exn + response) \<times> state" where
  "api_ordem L W data s =
     (if \<not> truthy data
      then (Inr (Response 400 (PDict [(''erro'', PStr msg_fields)])), s)
      else
        (case py_contains ''side'' data of
           Inl e \<Rightarrow> (Inl e, s)
         | Inr has_side \<Rightarrow>
             if \<not> has_side
             then (Inr (Response 400 (PDict [(''erro'', PStr msg_fields)])), s)
             else
               (case py_contains ''quantity'' data of
                  Inl e \<Rightarrow> (Inl e, s)
                | Inr has_quantity \<Rightarrow>
                    if \<not> has_quantity
                    then (Inr (Response 400 (PDict [(''erro'', PStr msg_fields)])), s)
                    else
                      (case py_getitem data ''side'' of
                         Inl e \<Rightarrow> (Inl e, s)
                       | Inr side_value \<Rightarrow>
                           (case py_upper side_value of
                              Inl e \<Rightarrow> (Inl e, s)
                            | Inr sd \<Rightarrow>
                                (case py_getitem data ''quantity'' of
                                   Inl e \<Rightarrow> (Inl e, s)
                                 | Inr quantity_value \<Rightarrow>
                                     (case py_float L quantity_value of
                                        Inl e \<Rightarrow> (Inl e, s)
                                      | Inr qty \<Rightarrow>
                                          (let price = get_brl_price W ''BTC'' in
                                           case order_and_record L W sd qty price s of
                                             (Inr (order, block), s1) \<Rightarrow>
                                               (Inr (Response 200
                                                  (PDict [(''order'', order),
                                                          (''block'', PDict block)])), s1)
                                           | (Inl e, s1) \<Rightarrow>
                                               (Inr (Response 500
                                                  (PDict [(''erro'', PStr (str_exn e))])),
                                                s1)))))))))"

section \<open>Runs of the process\<close>

text \<open>
  The monitor thread and the request handlers are taken one at a time: a run is a
  sequence of poll cycles and requests, each with what the outside world answers
  during it.
\<close>

datatype event =
    Poll world
  | GetSaldo
  | GetBlockchain
  | PostOrdem world pyval

fun exec :: "pylib \<Rightarrow> string list \<Rightarrow> event \<Rightarrow> state \<Rightarrow> state" where
  "exec L btc_addresses (Poll W) s = poll_cycle L btc_addresses W s"
| "exec L btc_addresses GetSaldo s = s"
| "exec L btc_addresses GetBlockchain s = s"
| "exec L btc_addresses (PostOrdem W data) s = snd (api_ordem L W data s)"

fun run :: "pylib \<Rightarrow> string list \<Rightarrow> event list \<Rightarrow> state \<Rightarrow> state" where
  "run L btc_addresses [] s = s"
| "run L btc_addresses (e # es) s = run L btc_addresses es (exec L btc_addresses e s)"

section \<open>Notions used in the statements\<close>

subsection \<open>Chains\<close>

text \<open>A field of a dictionary that holds a string.\<close>

definition str_field :: "pydict \<Rightarrow> string \<Rightarrow> string option" where
  "str_field b k = (case map_of b k of Some (PStr v) \<Rightarrow> Some v | _ \<Rightarrow> None)"

text \<open>
  The hash the next block will link to: the genesis constant for the empty chain,
  the stored hash of the last block otherwise, if that block has one.
\<close>

definition tip :: "pydict list \<Rightarrow> string option" where
  "tip chain = (if chain = [] then Some genesis else str_field (last chain) ''hash'')"

text \<open>
  A sequence of calls of \<open>create_block\<close>, each with the clock value it reads and
  its operation; the first exception ends it.
\<close>

fun appends :: "pylib \<Rightarrow> (pyfloat \<times> pydict) list \<Rightarrow> pydict list \<Rightarrow> exn + pydict list" where
  "appends L [] chain = Inr chain"
| "appends L (x # xs) chain =
     (case create_block L (fst x) (snd x) chain of
        Inl e \<Rightarrow> Inl e
      | Inr r \<Rightarrow> appends L xs (snd r))"

text \<open>
  The verification described for the ledger, which the program does not have:
  every block's hash is recomputed from its \<open>prev_hash\<close> and its operation and
  compared with the stored one, the \<open>prev_hash\<close> of the first block is compared
  with the genesis constant and that of every later block with the hash of the
  block before it; the first mismatch makes it false.
\<close>

fun verify_from :: "pylib \<Rightarrow> string \<Rightarrow> pydict list \<Rightarrow> bool" where
  "verify_from L expected [] = True"
| "verify_from L expected (b # bs) =
     (case str_field b ''hash'' of
        None \<Rightarrow> False
      | Some h \<Rightarrow>
          (case map_of b ''operation'' of
             None \<Rightarrow> False
           | Some operation \<Rightarrow>
               str_field b ''prev_hash'' = Some expected
               \<and> h = sha256_hexdigest L (expected @ json_dumps L operation)
               \<and> verify_from L h bs))"

definition verify :: "pylib \<Rightarrow> pydict list \<Rightarrow> bool" where
  "verify L chain = verify_from L genesis chain"

text \<open>
  The blocks that a sequence of appends adds to a chain whose tip is \<open>prev\<close>.
\<close>

fun blocks_from :: "pylib \<Rightarrow> string \<Rightarrow> (pyfloat \<times> pydict) list \<Rightarrow> pydict list" where
  "blocks_from L prev [] = []"
| "blocks_from L prev (x # xs) =
     [(''timestamp'', PFloat (fst x)),
      (''operation'', PDict (snd x)),
      (''hash'', PStr (sha256_hexdigest L (prev @ json_dumps L (PDict (snd x))))),
      (''prev_hash'', PStr prev)]
     # blocks_from L (sha256_hexdigest L (prev @ json_dumps L (PDict (snd x)))) xs"

text \<open>
  One step of the ledger: the chain is as it was, or has one more block, which has
  a string hash.
\<close>

definition grows :: "pydict list \<Rightarrow> pydict list \<Rightarrow> bool" where
  "grows c c' = (c' = c \<or> (\<exists>b. c' = c @ [b] \<and> str_field b ''hash'' \<noteq> None))"

subsection \<open>Orders and the ledger\<close>

text \<open>
  The parameters that \<open>place_order("BTCBRL", sd, qty)\<close> posts, and the operation
  that the program records after it.
\<close>

definition the_params :: "string \<Rightarrow> pyfloat \<Rightarrow> order_params" where
  "the_params sd qty =
     \<lparr>symbol = ''BTCBRL'', side = upper sd, order_type = ''MARKET'', quantity = qty\<rparr>"

definition the_op :: "string \<Rightarrow> pyfloat \<Rightarrow> pyfloat \<Rightarrow> pydict" where
  "the_op sd qty price =
     [(''side'', PStr sd), (''asset'', PStr ''BTC''),
      (''quantity'', PFloat qty), (''price'', PFloat price)]"

text \<open>
  The ledger follows the exchange between the states \<open>s\<close> and \<open>s'\<close>: either no
  order was posted and the chain is unchanged, or one order was posted and the chain
  is unchanged if the exchange refused it and has exactly one more block if the
  exchange accepted it, a block whose operation has the side and the quantity of
  the order, the asset BTC and the BTC price.
\<close>

definition coupled :: "world \<Rightarrow> state \<Rightarrow> state \<Rightarrow> bool" where
  "coupled W s s' =
     ((orders_sent s' = orders_sent s \<and> blockchain s' = blockchain s)
      \<or> (\<exists>p. orders_sent s' = orders_sent s @ [p]
            \<and> (case post_order W p of
                  Inl e \<Rightarrow> blockchain s' = blockchain s
                | Inr order \<Rightarrow>
                    (\<exists>b. blockchain s' = blockchain s @ [b]
                        \<and> map_of b ''operation''
                            = Some (PDict [(''side'', PStr (side p)),
                                           (''asset'', PStr ''BTC''),
                                           (''quantity'', PFloat (quantity p)),
                                           (''price'', PFloat (get_brl_price W ''BTC''))])))))"

subsection \<open>Fetched totals\<close>

text \<open>
  The total \<open>free + locked\<close> of one entry of the account JSON, when both fields
  convert to floats.
\<close>

definition total_of :: "pylib \<Rightarrow> raw_balance \<Rightarrow> pyfloat option" where
  "total_of L b =
     (case py_float L (get_or_zero (free b)) of
        Inl e \<Rightarrow> None
      | Inr fr \<Rightarrow>
          (case py_float L (get_or_zero (locked b)) of
             Inl e \<Rightarrow> None
           | Inr lk \<Rightarrow> Some (flt_add fr lk)))"

text \<open>An entry of the account JSON whose total is below zero.\<close>

definition negative_total :: "pylib \<Rightarrow> raw_balance \<Rightarrow> bool" where
  "negative_total L b = (case total_of L b of None \<Rightarrow> False | Some t \<Rightarrow> flt_lt t (Finite 0))"

subsection \<open>Concrete inputs\<close>

text \<open>
  An instance of the library functions on which the definitions can be evaluated:
  the digest is kept symbolic, as its argument between brackets, and the float
  parser knows a few texts.
\<close>

definition demo_lib :: pylib where
  "demo_lib =
     \<lparr>sha256_hexdigest = (\<lambda>s. ''sha256['' @ s @ '']''),
      json_string = (\<lambda>s. [CHR 0x22] @ s @ [CHR 0x22]),
      float_repr = (\<lambda>q. if q = 0 then ''0.0'' else if q = 1 then ''1.0'' else ''x''),
      parse_float = map_of [(''50.0'', Finite 50), (''1.0'', Finite 1), (''0.0'', Finite 0),
                            (''-1.0'', Finite (- 1)), (''nan'', NaN)]\<rparr>"

text \<open>
  A world in which the account has no balances, every pair trades at 99999, every
  address holds nothing and the exchange accepts every order; and variants of it: a
  given BTC price, an exchange that rejects every order, an account with 50 BRL, an
  account whose BTC total is zero while BTC trades at 120001, and an account and an
  explorer that report negative amounts.
\<close>

definition demo_world :: world where
  "demo_world =
     \<lparr>now = Finite 0,
      spot_account = Inr [],
      ticker = (\<lambda>p. Inr (Finite 99999)),
      onchain_sats = (\<lambda>a. Inr (PInt 0)),
      post_order = (\<lambda>p. Inr PNone)\<rparr>"

definition world_at :: "pyfloat \<Rightarrow> world" where
  "world_at price = demo_world\<lparr>ticker := (\<lambda>pair. Inr price)\<rparr>"

definition fail_world :: world where
  "fail_world = demo_world\<lparr>post_order := (\<lambda>p. Inl (RequestError ''rejected''))\<rparr>"

definition buy_world :: world where
  "buy_world = demo_world\<lparr>spot_account :=
     Inr [\<lparr>asset = Some (PStr ''BRL''), free = Some (PStr ''50.0''), locked = Some (PStr ''0.0'')\<rparr>]\<rparr>"

definition buy_fail_world :: world where
  "buy_fail_world = buy_world\<lparr>post_order := (\<lambda>p. Inl (RequestError ''rejected''))\<rparr>"

definition stale_world :: world where
  "stale_world = demo_world
     \<lparr>spot_account :=
        Inr [\<lparr>asset = Some (PStr ''BTC''), free = Some (PStr ''0.0''), locked = Some (PStr ''0.0'')\<rparr>],
      ticker := (\<lambda>pair. Inr (Finite 120001))\<rparr>"

definition neg_world :: world where
  "neg_world = demo_world
     \<lparr>spot_account :=
        Inr [\<lparr>asset = Some (PStr ''BTC''), free = Some (PStr ''-1.0''), locked = Some (PStr ''0.0'')\<rparr>],
      onchain_sats := (\<lambda>a. Inr (PInt (- 100000000)))\<rparr>"

text \<open>States with stored balances, operations and request bodies.\<close>

definition brl_state :: state where
  "brl_state = init_state\<lparr>prev_balances := [(''BRL'', Finite 50), (''BTC'', Finite 1)]\<rparr>"

definition held_state :: state where
  "held_state = init_state\<lparr>prev_balances := [(''BTC'', Finite 1)],
                           prev_onchain_btc := [(''addr1'', Finite 2)]\<rparr>"

definition buy_op :: pydict where
  "buy_op = [(''side'', PStr ''BUY''), (''asset'', PStr ''BTC''),
             (''quantity'', PFloat (Finite 1)), (''price'', PFloat (Finite 1))]"

definition nan_op :: pydict where
  "nan_op = [(''side'', PStr ''BUY''), (''asset'', PStr ''BTC''),
             (''quantity'', PFloat NaN), (''price'', PFloat PosInf)]"

definition buy_request :: pyval where
  "buy_request = PDict [(''side'', PStr ''buy''), (''quantity'', PFloat (Finite 1))]"


section \<open>The JSON text and the genesis constant\<close>

lemma filter_same_key:
  "distinct (map fst zs) \<Longrightarrow> k \<in> set zs \<Longrightarrow> filter (\<lambda>x. fst k = fst x) zs = [k]"
proof (induction zs)
  case Nil
  then show ?case by simp
next
  case (Cons z zs)
  show ?case
  proof (cases "k = z")
    case True
    with Cons.prems have "fst k \<notin> fst ` set zs" by simp
    then have "\<forall>x\<in>set zs. fst k \<noteq> fst x" by (metis imageI)
    then have "filter (\<lambda>x. fst k = fst x) zs = []" by (simp add: filter_empty_conv)
    with True show ?thesis by simp
  next
    case False
    with Cons.prems have k: "k \<in> set zs" and d: "distinct (map fst zs)" by auto
    from Cons.prems have "fst z \<notin> fst ` set zs" by simp
    with k have "fst k \<noteq> fst z" by (metis imageI)
    with Cons.IH [OF d k] show ?thesis by simp
  qed
qed

lemma sort_key_same_items:
  assumes "mset xs = mset ys" and "distinct (map fst xs)"
  shows "sort_key fst xs = sort_key fst ys"
proof -
  let ?zs = "sort_key fst ys"
  from assms(1) have "mset (map fst xs) = mset (map fst ys)" by simp
  with assms(2) have dy: "distinct (map fst ys)"
    by (metis mset_eq_imp_distinct_iff)
  have dz: "distinct (map fst ?zs)"
    using dy by (metis distinct_map distinct_sort set_sort)
  show ?thesis
  proof (rule properties_for_sort_key)
    show "mset ?zs = mset xs" using assms(1) by simp
    show "sorted (map fst ?zs)" by simp
    fix k assume k: "k \<in> set ?zs"
    then have "k \<in> set xs" using assms(1) by (metis mset_eq_setD set_sort)
    from filter_same_key [OF dz k] filter_same_key [OF assms(2) this]
    show "filter (\<lambda>x. fst k = fst x) ?zs = filter (\<lambda>x. fst k = fst x) xs" by simp
  qed
qed

text \<open>
  The JSON text is canonical: two dictionaries with the same items, inserted in any
  order, have the same text.
\<close>

lemma json_dumps_canonical:
  "mset kvs = mset kvs' \<Longrightarrow> distinct (map fst kvs) \<Longrightarrow>
   json_dumps L (PDict kvs) = json_dumps L (PDict kvs')"
  by (simp add: sort_key_same_items)

lemma genesis_zeros:
  "genesis = ''0000000000000000000000000000000000000000000000000000000000000000''"
  by (simp add: genesis_def eval_nat_numeral)

section \<open>The chain built by create\_block\<close>

lemma tip_Nil: "tip [] = Some genesis"
  by (simp add: tip_def)

lemma tip_snoc: "tip (chain @ [b]) = str_field b ''hash''"
  by (simp add: tip_def)

lemma create_block_tip:
  "tip chain = Some p \<Longrightarrow>
   create_block L t operation chain =
     Inr (hd (blocks_from L p [(t, operation)]), chain @ blocks_from L p [(t, operation)])"
  by (auto simp: create_block_def tip_def str_field_def Let_def
      split: option.splits pyval.splits if_splits)

lemma create_block_no_tip:
  "tip chain = None \<Longrightarrow> \<exists>e. create_block L t operation chain = Inl e"
  by (auto simp: create_block_def tip_def str_field_def Let_def
      split: option.splits pyval.splits if_splits)

lemma create_block_Inr:
  "create_block L t operation chain = Inr (b, c) \<Longrightarrow>
   \<exists>p. tip chain = Some p \<and> b = hd (blocks_from L p [(t, operation)]) \<and> c = chain @ [b]"
proof (cases "tip chain")
  case None
  assume "create_block L t operation chain = Inr (b, c)"
  with create_block_no_tip [OF None, of L t operation] show ?thesis by auto
next
  case (Some p)
  assume "create_block L t operation chain = Inr (b, c)"
  with create_block_tip [OF Some, of L t operation] show ?thesis
    using Some by auto
qed

lemma tip_blocks_from:
  "tip chain = Some p \<Longrightarrow> tip (chain @ blocks_from L p xs) \<noteq> None"
proof (induction xs arbitrary: chain p)
  case Nil
  then show ?case by simp
next
  case (Cons x xs)
  let ?h = "sha256_hexdigest L (p @ json_dumps L (PDict (snd x)))"
  let ?b = "hd (blocks_from L p [x])"
  have "tip (chain @ [?b]) = Some ?h"
    by (simp add: tip_snoc str_field_def)
  from Cons.IH [OF this] show ?case by simp
qed

lemma appends_blocks_from:
  "tip chain = Some p \<Longrightarrow> appends L xs chain = Inr (chain @ blocks_from L p xs)"
proof (induction xs arbitrary: chain p)
  case Nil
  then show ?case by simp
next
  case (Cons x xs)
  let ?h = "sha256_hexdigest L (p @ json_dumps L (PDict (snd x)))"
  let ?b = "hd (blocks_from L p [x])"
  have step: "create_block L (fst x) (snd x) chain = Inr (?b, chain @ [?b])"
    using create_block_tip [OF Cons.prems, of L "fst x" "snd x"] by simp
  have "tip (chain @ [?b]) = Some ?h"
    by (simp add: tip_snoc str_field_def)
  from Cons.IH [OF this] show ?case
    by (simp add: step)
qed

lemma length_blocks_from: "length (blocks_from L p xs) = length xs"
  by (induction xs arbitrary: p) simp_all

lemma verify_blocks_from: "verify_from L p (blocks_from L p xs)"
  by (induction xs arbitrary: p) (simp_all add: str_field_def)

lemma blocks_from_fields:
  "i < length xs \<Longrightarrow>
   map fst (blocks_from L p xs ! i) = [''timestamp'', ''operation'', ''hash'', ''prev_hash'']
   \<and> map_of (blocks_from L p xs ! i) ''timestamp'' = Some (PFloat (fst (xs ! i)))
   \<and> map_of (blocks_from L p xs ! i) ''operation'' = Some (PDict (snd (xs ! i)))"
proof (induction xs arbitrary: p i)
  case Nil
  then show ?case by simp
next
  case (Cons x xs)
  then show ?case by (cases i) simp_all
qed

lemma blocks_from_links:
  "i < length xs \<Longrightarrow>
   \<exists>h q. str_field (blocks_from L p xs ! i) ''hash'' = Some h
      \<and> str_field (blocks_from L p xs ! i) ''prev_hash'' = Some q
      \<and> h = sha256_hexdigest L (q @ json_dumps L (PDict (snd (xs ! i))))
      \<and> (i = 0 \<longrightarrow> q = p)
      \<and> (0 < i \<longrightarrow> str_field (blocks_from L p xs ! (i - 1)) ''hash'' = Some q)"
proof (induction xs arbitrary: p i)
  case Nil
  then show ?case by simp
next
  case (Cons x xs)
  show ?case
  proof (cases i)
    case 0
    then show ?thesis by (simp add: str_field_def)
  next
    case (Suc j)
    let ?h = "sha256_hexdigest L (p @ json_dumps L (PDict (snd x)))"
    from Cons.prems Suc have j: "j < length xs" by simp
    from Cons.IH [OF j, of ?h] obtain h q where
      hq: "str_field (blocks_from L ?h xs ! j) ''hash'' = Some h"
          "str_field (blocks_from L ?h xs ! j) ''prev_hash'' = Some q"
          "h = sha256_hexdigest L (q @ json_dumps L (PDict (snd (xs ! j))))"
          "j = 0 \<longrightarrow> q = ?h"
          "0 < j \<longrightarrow> str_field (blocks_from L ?h xs ! (j - 1)) ''hash'' = Some q"
      by blast
    show ?thesis
    proof (cases j)
      case 0
      with hq Suc show ?thesis by (simp add: str_field_def)
    next
      case (Suc k)
      with hq \<open>i = Suc j\<close> show ?thesis by simp
    qed
  qed
qed

text \<open>
  C1. Whatever operations are appended by \<open>create_block\<close>, starting from the empty
  list, no call raises, and in the resulting chain every block holds its operation,
  its hash is the SHA-256 digest of its \<open>prev_hash\<close> followed by the JSON text of
  the operation with sorted keys, the \<open>prev_hash\<close> of the first block is the
  genesis constant of 64 zeros and the \<open>prev_hash\<close> of every later block is the
  hash of the block before it; so the verification of the chain succeeds.
\<close>

theorem create_block_chain_invariant:
  "\<exists>chain. appends L ops [] = Inr chain \<and> length chain = length ops \<and> verify L chain
     \<and> (\<forall>i<length ops. \<exists>h q.
           str_field (chain ! i) ''hash'' = Some h
         \<and> str_field (chain ! i) ''prev_hash'' = Some q
         \<and> map_of (chain ! i) ''operation'' = Some (PDict (snd (ops ! i)))
         \<and> h = sha256_hexdigest L (q @ json_dumps L (PDict (snd (ops ! i))))
         \<and> (i = 0 \<longrightarrow> q = genesis)
         \<and> (0 < i \<longrightarrow> str_field (chain ! (i - 1)) ''hash'' = Some q))
     \<and> genesis = replicate 64 CHR ''0''"
proof -
  let ?c = "blocks_from L genesis ops"
  have g: "genesis = replicate 64 CHR ''0''"
    by (rule genesis_def)
  have a: "appends L ops [] = Inr ?c"
    using appends_blocks_from [OF tip_Nil, of L ops] by simp
  have v: "verify L ?c"
    by (simp add: verify_def verify_blocks_from)
  have l: "length ?c = length ops"
    by (rule length_blocks_from)
  have f: "\<forall>i<length ops. \<exists>h q.
           str_field (?c ! i) ''hash'' = Some h
         \<and> str_field (?c ! i) ''prev_hash'' = Some q
         \<and> map_of (?c ! i) ''operation'' = Some (PDict (snd (ops ! i)))
         \<and> h = sha256_hexdigest L (q @ json_dumps L (PDict (snd (ops ! i))))
         \<and> (i = 0 \<longrightarrow> q = genesis)
         \<and> (0 < i \<longrightarrow> str_field (?c ! (i - 1)) ''hash'' = Some q)"
  proof (intro allI impI)
    fix i assume i: "i < length ops"
    from blocks_from_links [OF i, of L genesis] blocks_from_fields [OF i, of L genesis]
    show "\<exists>h q.
           str_field (?c ! i) ''hash'' = Some h
         \<and> str_field (?c ! i) ''prev_hash'' = Some q
         \<and> map_of (?c ! i) ''operation'' = Some (PDict (snd (ops ! i)))
         \<and> h = sha256_hexdigest L (q @ json_dumps L (PDict (snd (ops ! i))))
         \<and> (i = 0 \<longrightarrow> q = genesis)
         \<and> (0 < i \<longrightarrow> str_field (?c ! (i - 1)) ''hash'' = Some q)"
      by blast
  qed
  from a v l f g show ?thesis by blast
qed

theorem create_block_chain_invariant_witness:
  "\<exists>chain. appends demo_lib [(Finite 0, buy_op), (Finite 1, buy_op)] [] = Inr chain
     \<and> length chain = 2 \<and> verify demo_lib chain
     \<and> (\<exists>h q. str_field (chain ! 1) ''hash'' = Some h
         \<and> str_field (chain ! 1) ''prev_hash'' = Some q
         \<and> map_of (chain ! 1) ''operation'' = Some (PDict buy_op)
         \<and> h = sha256_hexdigest demo_lib (q @ json_dumps demo_lib (PDict buy_op))
         \<and> str_field (chain ! 0) ''hash'' = Some q)"
proof -
  from create_block_chain_invariant [of demo_lib "[(Finite 0, buy_op), (Finite 1, buy_op)]"]
  obtain chain where c: "appends demo_lib [(Finite 0, buy_op), (Finite 1, buy_op)] [] = Inr chain"
    "length chain = 2" "verify demo_lib chain"
    and f: "\<forall>i<2. \<exists>h q.
           str_field (chain ! i) ''hash'' = Some h
         \<and> str_field (chain ! i) ''prev_hash'' = Some q
         \<and> map_of (chain ! i) ''operation'' = Some (PDict (snd ([(Finite 0, buy_op), (Finite 1, buy_op)] ! i)))
         \<and> h = sha256_hexdigest demo_lib (q @ json_dumps demo_lib (PDict (snd ([(Finite 0, buy_op), (Finite 1, buy_op)] ! i))))
         \<and> (i = 0 \<longrightarrow> q = genesis)
         \<and> (0 < i \<longrightarrow> str_field (chain ! (i - 1)) ''hash'' = Some q)"
    by auto
  from f have "\<exists>h q.
           str_field (chain ! 1) ''hash'' = Some h
         \<and> str_field (chain ! 1) ''prev_hash'' = Some q
         \<and> map_of (chain ! 1) ''operation'' = Some (PDict (snd ([(Finite 0, buy_op), (Finite 1, buy_op)] ! 1)))
         \<and> h = sha256_hexdigest demo_lib (q @ json_dumps demo_lib (PDict (snd ([(Finite 0, buy_op), (Finite 1, buy_op)] ! 1))))
         \<and> (1 = (0::nat) \<longrightarrow> q = genesis)
         \<and> (0 < (1::nat) \<longrightarrow> str_field (chain ! (1 - 1)) ''hash'' = Some q)"
    by (rule allE [where x = 1]) simp
  with c show ?thesis by simp
qed

section \<open>What the steps of the process leave unchanged\<close>

lemma spot_loop_frame:
  "blockchain (snd (spot_loop W xs s)) = blockchain s
   \<and> orders_sent (snd (spot_loop W xs s)) = orders_sent s
   \<and> prev_onchain_btc (snd (spot_loop W xs s)) = prev_onchain_btc s"
  by (induction xs arbitrary: s) (simp_all add: Let_def split: pykey.splits)

lemma onchain_loop_frame:
  "blockchain (onchain_loop W xs s) = blockchain s
   \<and> orders_sent (onchain_loop W xs s) = orders_sent s
   \<and> prev_balances (onchain_loop W xs s) = prev_balances s"
  by (induction xs arbitrary: s) (simp_all add: Let_def split: sum.splits)

lemma order_and_record_fail:
  "post_order W (the_params sd qty) = Inl e \<Longrightarrow>
   order_and_record L W sd qty price s =
     (Inl e, s\<lparr>orders_sent := orders_sent s @ [the_params sd qty]\<rparr>)"
  by (simp add: order_and_record_def place_order_def the_params_def Let_def)

lemma order_and_record_ok:
  "post_order W (the_params sd qty) = Inr order \<Longrightarrow> tip (blockchain s) = Some p \<Longrightarrow>
   order_and_record L W sd qty price s =
     (Inr (order, hd (blocks_from L p [(now W, the_op sd qty price)])),
      s\<lparr>orders_sent := orders_sent s @ [the_params sd qty],
        blockchain := blockchain s @ blocks_from L p [(now W, the_op sd qty price)]\<rparr>)"
  by (simp add: order_and_record_def place_order_def the_params_def the_op_def Let_def
      create_block_tip [of _ p])

lemma order_and_record_bad_chain:
  "post_order W (the_params sd qty) = Inr order \<Longrightarrow> tip (blockchain s) = None \<Longrightarrow>
   \<exists>e. order_and_record L W sd qty price s =
     (Inl e, s\<lparr>orders_sent := orders_sent s @ [the_params sd qty]\<rparr>)"
  using create_block_no_tip [of "blockchain s" L "now W" "the_op sd qty price"]
  by (auto simp add: order_and_record_def place_order_def the_params_def the_op_def Let_def)

lemma order_and_record_frame:
  "order_and_record L W sd qty price s = (r, s') \<Longrightarrow>
   orders_sent s' = orders_sent s @ [the_params sd qty]
   \<and> log s' = log s \<and> prev_balances s' = prev_balances s
   \<and> prev_onchain_btc s' = prev_onchain_btc s
   \<and> (blockchain s' = blockchain s \<or> (\<exists>b. blockchain s' = blockchain s @ [b] \<and> str_field b ''hash'' \<noteq> None))"
proof (cases "post_order W (the_params sd qty)")
  case (Inl e)
  assume "order_and_record L W sd qty price s = (r, s')"
  with order_and_record_fail [OF Inl, of L price s] show ?thesis by auto
next
  case (Inr order)
  assume a: "order_and_record L W sd qty price s = (r, s')"
  show ?thesis
  proof (cases "tip (blockchain s)")
    case None
    with order_and_record_bad_chain [OF Inr None, of L price] a show ?thesis by auto
  next
    case (Some p)
    with order_and_record_ok [OF Inr Some, of L price] a show ?thesis
      by (auto simp: str_field_def)
  qed
qed

lemma flt_div_pos: "flt_gt p (Finite 0) \<Longrightarrow> \<exists>q. flt_div a p = Inr q"
  by (cases p; cases a) (auto simp: flt_gt_def)

lemma grows_refl: "grows c c"
  by (simp add: grows_def)

lemma order_and_record_grows:
  "order_and_record L W sd qty price s = (r, s') \<Longrightarrow> grows (blockchain s) (blockchain s')"
  using order_and_record_frame [of L W sd qty price s r s'] by (simp add: grows_def)

lemma trade_section_grows:
  "trade_section L W s = Inr s' \<Longrightarrow> grows (blockchain s) (blockchain s')"
  by (auto simp: trade_section_def Let_def grows_refl
      split: if_splits sum.splits prod.splits dest!: order_and_record_grows)

lemma trade_section_total: "\<exists>s'. trade_section L W s = Inr s'"
proof (cases "flt_gt (get_brl_price W ''BTC'') (Finite 0)")
  case False
  then show ?thesis by (simp add: trade_section_def)
next
  case True
  from flt_div_pos [OF True]
  obtain q where "flt_div (dict_get (prev_balances s) ''BRL'' (Finite 0)) (get_brl_price W ''BTC'') = Inr q"
    by blast
  then show ?thesis
    by (auto simp: trade_section_def Let_def split: sum.splits prod.splits)
qed

lemma spot_section_frame:
  "blockchain (snd (spot_section L W s)) = blockchain s
   \<and> orders_sent (snd (spot_section L W s)) = orders_sent s
   \<and> prev_onchain_btc (snd (spot_section L W s)) = prev_onchain_btc s"
  by (simp add: spot_section_def spot_loop_frame split: sum.splits)

lemma onchain_section_frame:
  "blockchain (onchain_section a W s) = blockchain s
   \<and> orders_sent (onchain_section a W s) = orders_sent s
   \<and> prev_balances (onchain_section a W s) = prev_balances s"
  by (simp add: onchain_section_def onchain_loop_frame)

lemma poll_cycle_grows: "grows (blockchain s) (blockchain (poll_cycle L a W s))"
proof -
  obtain r s1 where sp: "spot_section L W s = (r, s1)"
    by (cases "spot_section L W s")
  with spot_section_frame [of L W s] have c1: "blockchain s1 = blockchain s"
    by simp
  show ?thesis
  proof (cases r)
    case (Some e)
    with sp c1 show ?thesis by (simp add: poll_cycle_def grows_refl)
  next
    case None
    let ?s2 = "onchain_section a W s1"
    have c: "blockchain ?s2 = blockchain s"
      using c1 onchain_section_frame [of a W s1] by simp
    from trade_section_total obtain s3 where t: "trade_section L W ?s2 = Inr s3" by blast
    from trade_section_grows [OF t] c have "grows (blockchain s) (blockchain s3)" by simp
    with sp None t show ?thesis by (simp add: poll_cycle_def Let_def)
  qed
qed

lemma py_upper_Inr: "py_upper v = Inr sd \<Longrightarrow> \<exists>raw. v = PStr raw \<and> sd = upper raw"
  by (cases v) simp_all

text \<open>
  The three ways \<open>api_ordem\<close> ends: an exception before the \<open>try\<close>, the 400
  response, or the \<open>try\<close> with an upper-case side.
\<close>

lemma api_ordem_cases:
  "(\<exists>e. api_ordem L W d s = (Inl e, s))
   \<or> api_ordem L W d s = (Inr (Response 400 (PDict [(''erro'', PStr msg_fields)])), s)
   \<or> (\<exists>raw qty r s1.
         order_and_record L W (upper raw) qty (get_brl_price W ''BTC'') s = (r, s1)
         \<and> snd (api_ordem L W d s) = s1
         \<and> (\<forall>e. r = Inl e \<longrightarrow>
               fst (api_ordem L W d s)
                 = Inr (Response 500 (PDict [(''erro'', PStr (str_exn e))])))
         \<and> (\<forall>order block. r = Inr (order, block) \<longrightarrow>
               fst (api_ordem L W d s)
                 = Inr (Response 200 (PDict [(''order'', order), (''block'', PDict block)]))))"
  by (auto simp: api_ordem_def Let_def split: sum.splits prod.splits dest!: py_upper_Inr)

lemma api_ordem_grows: "grows (blockchain s) (blockchain (snd (api_ordem L W d s)))"
  using api_ordem_cases [of L W d s]
  by (auto simp: grows_refl dest!: order_and_record_grows)

lemma exec_grows: "grows (blockchain s) (blockchain (exec L a e s))"
  by (cases e) (simp_all add: poll_cycle_grows api_ordem_grows grows_refl)

lemma grows_prefix: "grows c c' \<Longrightarrow> prefix c c'"
  by (auto simp: grows_def)

lemma grows_tip: "grows c c' \<Longrightarrow> tip c \<noteq> None \<Longrightarrow> tip c' \<noteq> None"
  by (auto simp: grows_def tip_snoc)

lemma run_prefix: "prefix (blockchain s) (blockchain (run L a es s))"
proof (induction es arbitrary: s)
  case Nil
  show ?case by simp
next
  case (Cons e es)
  have "prefix (blockchain s) (blockchain (exec L a e s))"
    by (rule grows_prefix [OF exec_grows])
  also have "prefix \<dots> (blockchain (run L a es (exec L a e s)))"
    by (rule Cons.IH)
  finally show ?case by simp
qed

lemma run_tip: "tip (blockchain s) \<noteq> None \<Longrightarrow> tip (blockchain (run L a es s)) \<noteq> None"
proof (induction es arbitrary: s)
  case Nil
  then show ?case by simp
next
  case (Cons e es)
  from grows_tip [OF exec_grows Cons.prems] have "tip (blockchain (exec L a e s)) \<noteq> None" .
  from Cons.IH [OF this] show ?case by simp
qed

lemma reachable_tip: "\<exists>p. tip (blockchain (run L a es init_state)) = Some p"
  using run_tip [of init_state L a es] by (auto simp: init_state_def tip_def)

text \<open>
  C9. The ledger is append-only. It is empty at the start; a call of
  \<open>create_block\<close> that returns leaves the stored blocks as they were, in their
  order, and puts exactly the returned block behind them; and every step of the
  process (a poll cycle, a GET request, a POST of an order) and every sequence of
  steps leaves the old chain as a prefix of the new one, so no block is ever
  removed, changed or moved and the length never decreases.
\<close>

theorem ledger_append_only:
  "blockchain init_state = []
   \<and> (\<forall>b c. create_block L t operation chain = Inr (b, c) \<longrightarrow> c = chain @ [b])
   \<and> prefix (blockchain s) (blockchain (exec L a e s))
   \<and> prefix (blockchain s) (blockchain (run L a es s))
   \<and> length (blockchain s) \<le> length (blockchain (run L a es s))"
proof -
  have 1: "blockchain init_state = []" by (simp add: init_state_def)
  have 2: "\<forall>b c. create_block L t operation chain = Inr (b, c) \<longrightarrow> c = chain @ [b]"
    using create_block_Inr [of L t operation chain] by blast
  have 3: "prefix (blockchain s) (blockchain (exec L a e s))"
    by (rule grows_prefix [OF exec_grows])
  have 4: "prefix (blockchain s) (blockchain (run L a es s))"
    by (rule run_prefix)
  from 4 have 5: "length (blockchain s) \<le> length (blockchain (run L a es s))"
    by (rule prefix_length_le)
  from 1 2 3 4 5 show ?thesis by blast
qed

theorem ledger_append_only_witness:
  "blockchain init_state = []
   \<and> snd (projr (create_block demo_lib (Finite 0) buy_op []))
       = [] @ [fst (projr (create_block demo_lib (Finite 0) buy_op []))]
   \<and> prefix (blockchain init_state) (blockchain (exec demo_lib [] (Poll demo_world) init_state))
   \<and> prefix (blockchain init_state) (blockchain (run demo_lib [] [Poll demo_world, GetBlockchain] init_state))"
proof -
  obtain b c where r: "create_block demo_lib (Finite 0) buy_op [] = Inr (b, c)"
    using create_block_tip [OF tip_Nil, of demo_lib "Finite 0" buy_op] by blast
  from ledger_append_only [of demo_lib "Finite 0" buy_op "[]" init_state "[]" "Poll demo_world"
      "[Poll demo_world, GetBlockchain]"] r
  show ?thesis by simp
qed

section \<open>Keys and positions of the blocks\<close>

text \<open>
  C4, as stated, fails: the block that \<open>create_block\<close> builds has the four keys
  \<open>timestamp\<close>, \<open>operation\<close>, \<open>hash\<close> and \<open>prev_hash\<close>, and no
  \<open>sequence_index\<close>.
\<close>

theorem block_has_no_sequence_index:
  "\<not> isl (create_block demo_lib (Finite 0) buy_op [])
   \<and> map fst (fst (projr (create_block demo_lib (Finite 0) buy_op [])))
       = [''timestamp'', ''operation'', ''hash'', ''prev_hash'']
   \<and> map_of (fst (projr (create_block demo_lib (Finite 0) buy_op []))) ''sequence_index'' = None"
  by (simp add: create_block_def Let_def)

text \<open>
  C4, amended. A block carries no sequence index of its own: its keys are
  \<open>timestamp\<close>, \<open>operation\<close>, \<open>hash\<close> and \<open>prev_hash\<close>. The order of the
  appends is the order of the list: after \<open>N\<close> appends from the empty chain the
  chain has length \<open>N\<close>, and for every \<open>i < N\<close> the block at position \<open>i\<close> is the
  one made by the \<open>i\<close>-th append (its clock value and its operation), so the
  positions \<open>0, 1, \<dots>, N - 1\<close> address the chain without gaps or duplicates.
\<close>

theorem chain_addressed_by_position:
  "\<exists>chain. appends L ops [] = Inr chain \<and> length chain = length ops
     \<and> (\<forall>i<length ops.
           map fst (chain ! i) = [''timestamp'', ''operation'', ''hash'', ''prev_hash'']
         \<and> map_of (chain ! i) ''timestamp'' = Some (PFloat (fst (ops ! i)))
         \<and> map_of (chain ! i) ''operation'' = Some (PDict (snd (ops ! i))))"
  using appends_blocks_from [OF tip_Nil, of L ops] length_blocks_from [of L genesis ops]
    blocks_from_fields [of _ ops L genesis]
  by simp

theorem chain_addressed_by_position_witness:
  "\<exists>chain. appends demo_lib [(Finite 0, buy_op), (Finite 1, buy_op)] [] = Inr chain
     \<and> length chain = 2
     \<and> map fst (chain ! 1) = [''timestamp'', ''operation'', ''hash'', ''prev_hash'']
     \<and> map_of (chain ! 1) ''timestamp'' = Some (PFloat (Finite 1))
     \<and> map_of (chain ! 1) ''operation'' = Some (PDict buy_op)"
  using chain_addressed_by_position [of demo_lib "[(Finite 0, buy_op), (Finite 1, buy_op)]"]
  by (elim exE conjE) (auto dest: spec [where x = 1])

section \<open>Operations with non-finite numbers\<close>

text \<open>
  C5, as stated, fails: for an operation whose quantity is NaN and whose price is
  infinite, \<open>create_block\<close> returns normally and the chain has one block more,
  which holds that operation.
\<close>

theorem non_finite_operation_is_appended:
  "\<not> isl (create_block demo_lib (Finite 0) nan_op [])
   \<and> length (snd (projr (create_block demo_lib (Finite 0) nan_op []))) = 1
   \<and> map_of (fst (projr (create_block demo_lib (Finite 0) nan_op []))) ''operation''
       = Some (PDict nan_op)"
  by (simp add: create_block_def Let_def)

text \<open>
  C5, amended. \<open>create_block\<close> rejects no operation. On a chain whose tip is a
  hash, every operation, also one with a non-finite numeric field, is appended as one
  block, whose hash is the digest of the previous hash followed by the JSON text of
  the operation; in that text a non-finite float is written as \<open>NaN\<close>,
  \<open>Infinity\<close> or \<open>-Infinity\<close>.
\<close>

theorem create_block_accepts_every_operation:
  "tip chain = Some p \<Longrightarrow>
   \<exists>b. create_block L t operation chain = Inr (b, chain @ [b])
      \<and> map_of b ''operation'' = Some (PDict operation)
      \<and> str_field b ''hash'' = Some (sha256_hexdigest L (p @ json_dumps L (PDict operation)))
      \<and> json_dumps L (PFloat NaN) = ''NaN''
      \<and> json_dumps L (PFloat PosInf) = ''Infinity''
      \<and> json_dumps L (PFloat NegInf) = ''-Infinity''"
  using create_block_tip [of chain p L t operation] by (simp add: str_field_def)

theorem create_block_accepts_every_operation_witness:
  "tip [] = Some genesis
   \<and> (\<exists>b. create_block demo_lib (Finite 0) nan_op [] = Inr (b, [] @ [b])
      \<and> map_of b ''operation'' = Some (PDict nan_op)
      \<and> str_field b ''hash''
           = Some (sha256_hexdigest demo_lib (genesis @ json_dumps demo_lib (PDict nan_op))))"
  using create_block_accepts_every_operation [OF tip_Nil, of demo_lib "Finite 0" nan_op] tip_Nil
  by blast

section \<open>The decision of a poll cycle\<close>

lemma upper_BUY: "upper ''BUY'' = ''BUY''"
  by (simp add: upper_def upper_char_def)

lemma upper_SELL: "upper ''SELL'' = ''SELL''"
  by (simp add: upper_def upper_char_def)

lemma order_and_record_sent:
  "order_and_record L W sd qty price s = (r, s') \<Longrightarrow>
   orders_sent s' = orders_sent s @ [the_params sd qty]"
  using order_and_record_frame [of L W sd qty price s r s'] by simp

lemma trade_section_buy:
  assumes "flt_gt (get_brl_price W ''BTC'') (Finite 0)"
    and "flt_lt (get_brl_price W ''BTC'') (Finite 100000)"
    and "flt_gt (dict_get (prev_balances s) ''BRL'' (Finite 0)) (Finite 10)"
    and "trade_section L W s = Inr s'"
  shows "\<exists>q. flt_div (dict_get (prev_balances s) ''BRL'' (Finite 0)) (get_brl_price W ''BTC'') = Inr q
     \<and> orders_sent s' = orders_sent s @ [the_params ''BUY'' q]"
  using assms
  by (auto simp: trade_section_def Let_def split: sum.splits prod.splits
      dest!: order_and_record_sent)

lemma trade_section_sell:
  assumes "flt_gt (get_brl_price W ''BTC'') (Finite 120000)"
    and "flt_gt (dict_get (prev_balances s) ''BTC'' (Finite 0)) min_btc"
    and "trade_section L W s = Inr s'"
  shows "orders_sent s' = orders_sent s
            @ [the_params ''SELL'' (dict_get (prev_balances s) ''BTC'' (Finite 0))]"
proof -
  from assms(1) have "flt_gt (get_brl_price W ''BTC'') (Finite 0)"
    and "\<not> flt_lt (get_brl_price W ''BTC'') (Finite 100000)"
    by (cases "get_brl_price W ''BTC''"; simp add: flt_gt_def)+
  with assms show ?thesis
    by (auto simp: trade_section_def Let_def split: sum.splits prod.splits
        dest!: order_and_record_sent)
qed

lemma trade_section_hold:
  assumes "\<not> (flt_gt (get_brl_price W ''BTC'') (Finite 0)
              \<and> flt_lt (get_brl_price W ''BTC'') (Finite 100000)
              \<and> flt_gt (dict_get (prev_balances s) ''BRL'' (Finite 0)) (Finite 10))"
    and "\<not> (flt_gt (get_brl_price W ''BTC'') (Finite 120000)
              \<and> flt_gt (dict_get (prev_balances s) ''BTC'' (Finite 0)) min_btc)"
    and "trade_section L W s = Inr s'"
  shows "s' = s"
  using assms
  by (auto simp: trade_section_def Let_def split: if_splits)

text \<open>
  C3. The decision of a poll cycle, read off the orders it hands to
  \<open>place_order\<close>, for every BTC price and every stored spot snapshot: no order when
  the price is at most zero; a market BUY of \<open>brl_balance / btc_price\<close> when the
  price is below 100000 and the BRL balance above 10; otherwise a market SELL of the
  BTC balance when the price is above 120000 and the BTC balance above the float
  \<open>0.0001\<close>; and no order in every other case, in particular for every price from
  100000 to 120000, both included. The section never raises.
\<close>

theorem decision_policy:
  "\<exists>s'. trade_section L W s = Inr s' \<and>
     (let price = get_brl_price W ''BTC'';
          brl = dict_get (prev_balances s) ''BRL'' (Finite 0);
          btc = dict_get (prev_balances s) ''BTC'' (Finite 0);
          buy = (flt_lt price (Finite 100000) \<and> flt_gt brl (Finite 10));
          sell = (flt_gt price (Finite 120000) \<and> flt_gt btc min_btc)
      in (flt_le price (Finite 0) \<longrightarrow> orders_sent s' = orders_sent s)
       \<and> (\<not> flt_le price (Finite 0) \<and> buy \<longrightarrow>
            (\<exists>q. flt_div brl price = Inr q
               \<and> orders_sent s' = orders_sent s
                    @ [\<lparr>symbol = ''BTCBRL'', side = ''BUY'', order_type = ''MARKET'',
                        quantity = q\<rparr>]))
       \<and> (\<not> flt_le price (Finite 0) \<and> \<not> buy \<and> sell \<longrightarrow>
            orders_sent s' = orders_sent s
              @ [\<lparr>symbol = ''BTCBRL'', side = ''SELL'', order_type = ''MARKET'',
                  quantity = btc\<rparr>])
       \<and> (\<not> flt_le price (Finite 0) \<and> \<not> buy \<and> \<not> sell \<longrightarrow> orders_sent s' = orders_sent s)
       \<and> (flt_le (Finite 100000) price \<and> flt_le price (Finite 120000) \<longrightarrow>
            orders_sent s' = orders_sent s))"
proof -
  from trade_section_total obtain s' where t: "trade_section L W s = Inr s'" by blast
  let ?price = "get_brl_price W ''BTC''"
  let ?brl = "dict_get (prev_balances s) ''BRL'' (Finite 0)"
  let ?btc = "dict_get (prev_balances s) ''BTC'' (Finite 0)"
  let ?buy = "flt_lt ?price (Finite 100000) \<and> flt_gt ?brl (Finite 10)"
  let ?sell = "flt_gt ?price (Finite 120000) \<and> flt_gt ?btc min_btc"
  have le0: "flt_le ?price (Finite 0) \<Longrightarrow> \<not> flt_gt ?price (Finite 0)"
    by (simp add: flt_le_def flt_gt_def)
  have gt0: "\<not> flt_le ?price (Finite 0) \<Longrightarrow> flt_lt ?price (Finite 100000) \<Longrightarrow>
      flt_gt ?price (Finite 0)"
    by (cases ?price) (auto simp: flt_le_def flt_gt_def)
  have excl: "flt_gt ?price (Finite 120000) \<Longrightarrow> \<not> flt_lt ?price (Finite 100000)"
    by (cases ?price) (auto simp: flt_gt_def)
  have band: "flt_le (Finite 100000) ?price \<Longrightarrow> flt_le ?price (Finite 120000) \<Longrightarrow>
      \<not> flt_lt ?price (Finite 100000) \<and> \<not> flt_gt ?price (Finite 120000)"
    by (simp add: flt_le_def flt_gt_def)
  have 1: "flt_le ?price (Finite 0) \<longrightarrow> orders_sent s' = orders_sent s"
  proof
    assume a: "flt_le ?price (Finite 0)"
    from le0 [OF a] excl have "\<not> flt_gt ?price (Finite 0)" by blast
    moreover have "\<not> flt_gt ?price (Finite 120000)"
      using a by (cases ?price) (auto simp: flt_le_def flt_gt_def)
    ultimately have "s' = s" using trade_section_hold [OF _ _ t] by blast
    then show "orders_sent s' = orders_sent s" by simp
  qed
  have 2: "\<not> flt_le ?price (Finite 0) \<and> ?buy \<longrightarrow>
            (\<exists>q. flt_div ?brl ?price = Inr q
               \<and> orders_sent s' = orders_sent s
                    @ [\<lparr>symbol = ''BTCBRL'', side = ''BUY'', order_type = ''MARKET'',
                        quantity = q\<rparr>])"
  proof
    assume a: "\<not> flt_le ?price (Finite 0) \<and> ?buy"
    with gt0 have "flt_gt ?price (Finite 0)" by blast
    from trade_section_buy [OF this _ _ t] a
    show "\<exists>q. flt_div ?brl ?price = Inr q
               \<and> orders_sent s' = orders_sent s
                    @ [\<lparr>symbol = ''BTCBRL'', side = ''BUY'', order_type = ''MARKET'',
                        quantity = q\<rparr>]"
      by (simp add: the_params_def upper_BUY)
  qed
  have 3: "\<not> flt_le ?price (Finite 0) \<and> \<not> ?buy \<and> ?sell \<longrightarrow>
            orders_sent s' = orders_sent s
              @ [\<lparr>symbol = ''BTCBRL'', side = ''SELL'', order_type = ''MARKET'',
                  quantity = ?btc\<rparr>]"
  proof
    assume a: "\<not> flt_le ?price (Finite 0) \<and> \<not> ?buy \<and> ?sell"
    with trade_section_sell [OF _ _ t]
    show "orders_sent s' = orders_sent s
              @ [\<lparr>symbol = ''BTCBRL'', side = ''SELL'', order_type = ''MARKET'',
                  quantity = ?btc\<rparr>]"
      by (simp add: the_params_def upper_SELL)
  qed
  have 4: "\<not> flt_le ?price (Finite 0) \<and> \<not> ?buy \<and> \<not> ?sell \<longrightarrow> orders_sent s' = orders_sent s"
  proof
    assume a: "\<not> flt_le ?price (Finite 0) \<and> \<not> ?buy \<and> \<not> ?sell"
    then have "s' = s" using trade_section_hold [OF _ _ t] by blast
    then show "orders_sent s' = orders_sent s" by simp
  qed
  have 5: "flt_le (Finite 100000) ?price \<and> flt_le ?price (Finite 120000) \<longrightarrow>
            orders_sent s' = orders_sent s"
  proof
    assume a: "flt_le (Finite 100000) ?price \<and> flt_le ?price (Finite 120000)"
    with band have "\<not> flt_lt ?price (Finite 100000) \<and> \<not> flt_gt ?price (Finite 120000)"
      by blast
    then have "s' = s" using trade_section_hold [OF _ _ t] by blast
    then show "orders_sent s' = orders_sent s" by simp
  qed
  from t 1 2 3 4 5 show ?thesis unfolding Let_def by blast
qed

theorem decision_policy_witness:
  "(\<not> flt_le (Finite 99999) (Finite 0) \<and> flt_lt (Finite 99999) (Finite 100000)
      \<and> flt_gt (Finite 50) (Finite 10)
      \<and> (\<exists>s'. trade_section demo_lib (world_at (Finite 99999)) brl_state = Inr s'
            \<and> orders_sent s' = [\<lparr>symbol = ''BTCBRL'', side = ''BUY'', order_type = ''MARKET'',
                                  quantity = Finite (50 / 99999)\<rparr>]))
   \<and> (flt_gt (Finite 120001) (Finite 120000) \<and> flt_gt (Finite 1) min_btc
      \<and> (\<exists>s'. trade_section demo_lib (world_at (Finite 120001)) brl_state = Inr s'
            \<and> orders_sent s' = [\<lparr>symbol = ''BTCBRL'', side = ''SELL'', order_type = ''MARKET'',
                                  quantity = Finite 1\<rparr>]))
   \<and> (flt_le (Finite 100000) (Finite 120000) \<and> flt_le (Finite 120000) (Finite 120000)
      \<and> (\<exists>s'. trade_section demo_lib (world_at (Finite 120000)) brl_state = Inr s'
            \<and> orders_sent s' = []))
   \<and> (flt_le (Finite 0) (Finite 0)
      \<and> (\<exists>s'. trade_section demo_lib (world_at (Finite 0)) brl_state = Inr s'
            \<and> orders_sent s' = []))"
proof -
  have p: "get_brl_price (world_at x) ''BTC'' = x" for x
    by (simp add: get_brl_price_def world_at_def)
  have b: "dict_get (prev_balances brl_state) ''BRL'' (Finite 0) = Finite 50"
    "dict_get (prev_balances brl_state) ''BTC'' (Finite 0) = Finite 1"
    "orders_sent brl_state = []"
    by (simp_all add: brl_state_def init_state_def dict_get_def)
  have 1: "\<exists>s'. trade_section demo_lib (world_at (Finite 99999)) brl_state = Inr s'
            \<and> orders_sent s' = [\<lparr>symbol = ''BTCBRL'', side = ''BUY'', order_type = ''MARKET'',
                                  quantity = Finite (50 / 99999)\<rparr>]"
    using decision_policy [of demo_lib "world_at (Finite 99999)" brl_state]
    by (simp add: p b Let_def flt_le_def flt_gt_def min_btc_def)
  have 2: "\<exists>s'. trade_section demo_lib (world_at (Finite 120001)) brl_state = Inr s'
            \<and> orders_sent s' = [\<lparr>symbol = ''BTCBRL'', side = ''SELL'', order_type = ''MARKET'',
                                  quantity = Finite 1\<rparr>]"
    using decision_policy [of demo_lib "world_at (Finite 120001)" brl_state]
    by (simp add: p b Let_def flt_le_def flt_gt_def min_btc_def)
  have 3: "\<exists>s'. trade_section demo_lib (world_at (Finite 120000)) brl_state = Inr s'
            \<and> orders_sent s' = []"
    using decision_policy [of demo_lib "world_at (Finite 120000)" brl_state]
    by (simp add: p b Let_def flt_le_def flt_gt_def min_btc_def)
  have 4: "\<exists>s'. trade_section demo_lib (world_at (Finite 0)) brl_state = Inr s'
            \<and> orders_sent s' = []"
    using decision_policy [of demo_lib "world_at (Finite 0)" brl_state]
    by (simp add: p b Let_def flt_le_def flt_gt_def min_btc_def)
  from 1 2 3 4 show ?thesis
    by (simp add: flt_le_def flt_gt_def min_btc_def)
qed

section \<open>Orders and ledger blocks\<close>

lemma upper_char_idem: "upper_char (upper_char c) = upper_char c"
proof (cases "97 \<le> (of_char c :: nat) \<and> (of_char c :: nat) \<le> 122")
  case True
  then have "(of_char c :: nat) - 32 < 256"
    by arith
  then have "((of_char c :: nat) - 32) mod 256 = of_char c - 32"
    by (rule mod_less)
  moreover from True have "\<not> 97 \<le> (of_char c :: nat) - 32"
    by arith
  ultimately show ?thesis
    using True by (simp add: upper_char_def)
next
  case False
  then have "upper_char c = c"
    by (auto simp: upper_char_def)
  then show ?thesis
    by simp
qed

lemma upper_idem: "upper (upper s) = upper s"
  by (simp add: upper_def upper_char_idem)

lemma order_and_record_result:
  "order_and_record L W sd qty price s = (r, s') \<Longrightarrow>
   orders_sent s' = orders_sent s @ [the_params sd qty] \<and> log s' = log s
   \<and> (\<forall>e. post_order W (the_params sd qty) = Inl e \<longrightarrow> r = Inl e \<and> blockchain s' = blockchain s)
   \<and> (\<forall>order p0. post_order W (the_params sd qty) = Inr order \<longrightarrow> tip (blockchain s) = Some p0 \<longrightarrow>
        (\<exists>b. r = Inr (order, b) \<and> blockchain s' = blockchain s @ [b]
            \<and> map_of b ''operation'' = Some (PDict (the_op sd qty price))))"
proof (cases "post_order W (the_params sd qty)")
  case (Inl e)
  assume "order_and_record L W sd qty price s = (r, s')"
  with order_and_record_fail [OF Inl, of L price s] Inl show ?thesis by auto
next
  case (Inr order)
  assume a: "order_and_record L W sd qty price s = (r, s')"
  show ?thesis
  proof (cases "tip (blockchain s)")
    case None
    with order_and_record_bad_chain [OF Inr None, of L price] a Inr show ?thesis by auto
  next
    case (Some p)
    with order_and_record_ok [OF Inr Some, of L price] a Inr show ?thesis by auto
  qed
qed

lemma order_and_record_coupled:
  assumes "tip (blockchain s) = Some p0" and "upper sd = sd"
    and "order_and_record L W sd qty (get_brl_price W ''BTC'') s = (r, s')"
  shows "coupled W s s'"
  using order_and_record_result [OF assms(3)] assms(1) assms(2)
  unfolding coupled_def
  by (intro disjI2 exI [of _ "the_params sd qty"])
    (auto simp: the_params_def the_op_def split: sum.splits)

lemma coupled_refl: "coupled W s s"
  by (simp add: coupled_def)

lemma coupled_log: "coupled W s s' \<Longrightarrow> coupled W s (s'\<lparr>log := l\<rparr>)"
  by (simp add: coupled_def cong: sum.case_cong)

lemma trade_section_coupled:
  assumes "tip (blockchain s) = Some p0" and "trade_section L W s = Inr s'"
  shows "coupled W s s'"
  using assms(2)
  by (auto simp: trade_section_def Let_def coupled_refl upper_BUY upper_SELL
      split: if_splits sum.splits prod.splits
      intro!: coupled_log dest!: order_and_record_coupled [OF assms(1), rotated])

lemma spot_loop_log: "\<exists>pre. log (snd (spot_loop W xs s)) = log s @ pre"
proof (induction xs arbitrary: s)
  case Nil
  show ?case by simp
next
  case (Cons x xs)
  show ?case
  proof (cases "fst x")
    case (KStr a)
    let ?s1 = "s\<lparr>prev_balances := AList.update a (snd x) (prev_balances s),
        log := log s @ [(INFO, SpotLine a (snd x)
          (flt_mul (snd x) (get_brl_price W a))
          (flt_sub (snd x) (dict_get (prev_balances s) a (Finite 0))))]\<rparr>"
    from Cons.IH [of ?s1] obtain pre where "log (snd (spot_loop W xs ?s1)) = log ?s1 @ pre"
      by blast
    with KStr show ?thesis by (simp add: Let_def)
  next
    case (KNum f)
    then show ?thesis by simp
  next
    case KNone
    then show ?thesis by simp
  qed
qed

lemma spot_section_log: "\<exists>pre. log (snd (spot_section L W s)) = log s @ pre"
  using spot_loop_log by (simp add: spot_section_def split: sum.splits)

lemma onchain_loop_log: "\<exists>pre. log (onchain_loop W xs s) = log s @ pre"
proof (induction xs arbitrary: s)
  case Nil
  show ?case by simp
next
  case (Cons x xs)
  show ?case
  proof (cases "get_btc_onchain_balance W x")
    case (Inl e)
    let ?s1 = "s\<lparr>log := log s @ [(ERROR, OnchainError x e)]\<rparr>"
    from Cons.IH [of ?s1] obtain pre where "log (onchain_loop W xs ?s1) = log ?s1 @ pre" by blast
    with Inl show ?thesis by simp
  next
    case (Inr bal)
    let ?s1 = "s\<lparr>prev_onchain_btc := AList.update x bal (prev_onchain_btc s),
        log := log s @ [(INFO, OnchainLine x bal
          (flt_sub bal (dict_get (prev_onchain_btc s) x (Finite 0))))]\<rparr>"
    from Cons.IH [of ?s1] obtain pre where "log (onchain_loop W xs ?s1) = log ?s1 @ pre" by blast
    with Inr show ?thesis by (simp add: Let_def)
  qed
qed

lemma onchain_section_log: "\<exists>pre. log (onchain_section a W s) = log s @ pre"
  using onchain_loop_log [of W a s] by (simp add: onchain_section_def)

lemma trade_section_log_fail:
  assumes "trade_section L W s = Inr s'" and "orders_sent s' = orders_sent s @ [p]"
    and "post_order W p = Inl e"
  shows "log s' = log s @ [(ERROR, if side p = ''BUY'' then BuyError e else SellError e)]"
  using assms
  by (auto simp: trade_section_def Let_def the_params_def upper_BUY upper_SELL
      split: if_splits sum.splits prod.splits dest!: order_and_record_result)

lemma poll_cycle_coupled:
  assumes "tip (blockchain s) = Some p0"
  shows "coupled W s (poll_cycle L a W s)"
proof -
  obtain r s1 where sp: "spot_section L W s = (r, s1)"
    by (cases "spot_section L W s")
  with spot_section_frame [of L W s]
  have c1: "blockchain s1 = blockchain s" "orders_sent s1 = orders_sent s"
    by simp_all
  show ?thesis
  proof (cases r)
    case (Some e)
    with sp c1 show ?thesis by (simp add: poll_cycle_def coupled_def)
  next
    case None
    let ?s2 = "onchain_section a W s1"
    have c: "blockchain ?s2 = blockchain s" "orders_sent ?s2 = orders_sent s"
      using c1 onchain_section_frame [of a W s1] by simp_all
    from trade_section_total obtain s3 where t: "trade_section L W ?s2 = Inr s3" by blast
    from assms c have "tip (blockchain ?s2) = Some p0" by simp
    from trade_section_coupled [OF this t] c have "coupled W s s3"
      by (simp add: coupled_def cong: sum.case_cong)
    with sp None t show ?thesis by (simp add: poll_cycle_def Let_def)
  qed
qed

lemma poll_cycle_log_fail:
  assumes "orders_sent (poll_cycle L a W s) = orders_sent s @ [p]" and "post_order W p = Inl e"
  shows "\<exists>pre. log (poll_cycle L a W s)
           = log s @ pre @ [(ERROR, if side p = ''BUY'' then BuyError e else SellError e)]"
proof -
  obtain r s1 where sp: "spot_section L W s = (r, s1)"
    by (cases "spot_section L W s")
  with spot_section_frame [of L W s] have c1: "orders_sent s1 = orders_sent s"
    by simp
  show ?thesis
  proof (cases r)
    case (Some e')
    with sp c1 assms(1) show ?thesis by (simp add: poll_cycle_def)
  next
    case None
    let ?s2 = "onchain_section a W s1"
    have c: "orders_sent ?s2 = orders_sent s"
      using c1 onchain_section_frame [of a W s1] by simp
    from sp obtain pre1 where l1: "log s1 = log s @ pre1"
      using spot_section_log [of L W s] by auto
    obtain pre2 where l2: "log ?s2 = log s1 @ pre2"
      using onchain_section_log by blast
    from trade_section_total obtain s3 where t: "trade_section L W ?s2 = Inr s3" by blast
    with sp None have p: "poll_cycle L a W s = s3" by (simp add: poll_cycle_def Let_def)
    with assms(1) c have "orders_sent s3 = orders_sent ?s2 @ [p]" by simp
    from trade_section_log_fail [OF t this assms(2)] l1 l2 p show ?thesis by auto
  qed
qed

lemma api_ordem_coupled:
  assumes "tip (blockchain s) = Some p0"
  shows "coupled W s (snd (api_ordem L W d s))"
  using api_ordem_cases [of L W d s]
  by (auto simp: coupled_refl upper_idem
      dest!: order_and_record_coupled [OF assms, rotated])

lemma api_ordem_fail:
  assumes "orders_sent (snd (api_ordem L W d s)) = orders_sent s @ [p]"
    and "post_order W p = Inl e"
  shows "log (snd (api_ordem L W d s)) = log s
     \<and> fst (api_ordem L W d s) = Inr (Response 500 (PDict [(''erro'', PStr (str_exn e))]))"
  using assms api_ordem_cases [of L W d s]
  by (auto dest!: order_and_record_result)

lemma upper_buy: "upper ''buy'' = ''BUY''"
  by code_simp

text \<open>
  C2, as stated, fails for the manual order: when the exchange rejects the order of
  a POST request, no block is appended, but \<open>api_ordem\<close> writes nothing to the log;
  the error goes to the caller in the body of the 500 response.
\<close>

theorem manual_order_failure_not_logged:
  "post_order fail_world
       \<lparr>symbol = ''BTCBRL'', side = ''BUY'', order_type = ''MARKET'', quantity = Finite 1\<rparr>
     = Inl (RequestError ''rejected'')
   \<and> orders_sent (snd (api_ordem demo_lib fail_world buy_request init_state))
     = [\<lparr>symbol = ''BTCBRL'', side = ''BUY'', order_type = ''MARKET'', quantity = Finite 1\<rparr>]
   \<and> blockchain (snd (api_ordem demo_lib fail_world buy_request init_state)) = []
   \<and> log (snd (api_ordem demo_lib fail_world buy_request init_state)) = []
   \<and> fst (api_ordem demo_lib fail_world buy_request init_state)
     = Inr (Response 500 (PDict [(''erro'', PStr ''rejected'')]))"
  by (simp add: api_ordem_def buy_request_def fail_world_def demo_world_def init_state_def
      order_and_record_def place_order_def get_brl_price_def upper_buy upper_BUY Let_def)

text \<open>
  C2, amended. In every state the process can reach, a poll cycle and a POST of an
  order each hand at most one order to the exchange, and the ledger is coupled to
  the answer: without an order, and with an order that the exchange rejects, the
  chain is unchanged; with an order that the exchange accepts, exactly one block is
  appended, whose operation has the side and the quantity of that order, the asset
  BTC and the BTC price of the cycle or request. A rejected order of a poll cycle is
  logged as an error, of the buy or of the sell after the side of the order (it is
  the last line the cycle logs). A rejected order of a POST
  request is not logged: the log is unchanged and the caller receives the error in
  the body of a 500 response.
\<close>

theorem order_and_ledger_coupled:
  assumes "s = run L a es init_state"
  shows "coupled W s (poll_cycle L a W s)
     \<and> (\<forall>p e. orders_sent (poll_cycle L a W s) = orders_sent s @ [p] \<and> post_order W p = Inl e
            \<longrightarrow> (\<exists>pre. log (poll_cycle L a W s)
                 = log s @ pre
                   @ [(ERROR, if side p = ''BUY'' then BuyError e else SellError e)]))
     \<and> coupled W s (snd (api_ordem L W d s))
     \<and> (\<forall>p e. orders_sent (snd (api_ordem L W d s)) = orders_sent s @ [p]
              \<and> post_order W p = Inl e
            \<longrightarrow> log (snd (api_ordem L W d s)) = log s
              \<and> fst (api_ordem L W d s)
                  = Inr (Response 500 (PDict [(''erro'', PStr (str_exn e))])))"
proof -
  from assms reachable_tip [of L a es] obtain p0 where t: "tip (blockchain s) = Some p0"
    by auto
  have 1: "coupled W s (poll_cycle L a W s)"
    by (rule poll_cycle_coupled [OF t])
  have 2: "\<forall>p e. orders_sent (poll_cycle L a W s) = orders_sent s @ [p] \<and> post_order W p = Inl e
            \<longrightarrow> (\<exists>pre. log (poll_cycle L a W s)
                 = log s @ pre
                   @ [(ERROR, if side p = ''BUY'' then BuyError e else SellError e)])"
    using poll_cycle_log_fail [of L a W s] by blast
  have 3: "coupled W s (snd (api_ordem L W d s))"
    by (rule api_ordem_coupled [OF t])
  have 4: "\<forall>p e. orders_sent (snd (api_ordem L W d s)) = orders_sent s @ [p]
              \<and> post_order W p = Inl e
            \<longrightarrow> log (snd (api_ordem L W d s)) = log s
              \<and> fst (api_ordem L W d s)
                  = Inr (Response 500 (PDict [(''erro'', PStr (str_exn e))]))"
    using api_ordem_fail [of L W d s] by blast
  from 1 2 3 4 show ?thesis by blast
qed

lemma poll_buy_orders:
  "orders_sent (poll_cycle demo_lib [] W init_state)
     = [\<lparr>symbol = ''BTCBRL'', side = ''BUY'', order_type = ''MARKET'',
         quantity = Finite (50 / 99999)\<rparr>]"
  if "W = buy_world \<or> W = buy_fail_world"
  using that
  by (auto simp add: poll_cycle_def spot_section_def get_nonzero_balances_def get_or_zero_def
      buy_world_def buy_fail_world_def demo_world_def demo_lib_def init_state_def
      onchain_section_def trade_section_def dict_get_def flt_gt_def
      order_and_record_def place_order_def get_brl_price_def upper_buy upper_BUY Let_def
      create_block_def)

theorem order_and_ledger_coupled_witness:
  "init_state = run demo_lib [] [] init_state
   \<and> (\<exists>b. blockchain (poll_cycle demo_lib [] buy_world init_state) = [b]
         \<and> map_of b ''operation''
             = Some (PDict [(''side'', PStr ''BUY''), (''asset'', PStr ''BTC''),
                            (''quantity'', PFloat (Finite (50 / 99999))),
                            (''price'', PFloat (Finite 99999))]))
   \<and> blockchain (poll_cycle demo_lib [] buy_fail_world init_state) = []
   \<and> (\<exists>pre. log (poll_cycle demo_lib [] buy_fail_world init_state)
         = pre @ [(ERROR, BuyError (RequestError ''rejected''))])
   \<and> blockchain (snd (api_ordem demo_lib fail_world buy_request init_state)) = []
   \<and> log (snd (api_ordem demo_lib fail_world buy_request init_state)) = []"
proof -
  have r: "init_state = run demo_lib [] [] init_state" by simp
  let ?p = "\<lparr>symbol = ''BTCBRL'', side = ''BUY'', order_type = ''MARKET'',
         quantity = Finite (50 / 99999)\<rparr>"
  let ?q = "\<lparr>symbol = ''BTCBRL'', side = ''BUY'', order_type = ''MARKET'',
         quantity = Finite 1\<rparr>"
  have ok: "post_order buy_world ?p = Inr PNone"
    by (simp add: buy_world_def demo_world_def)
  have ko: "post_order buy_fail_world ?p = Inl (RequestError ''rejected'')"
    by (simp add: buy_fail_world_def)
  have ko2: "post_order fail_world ?q = Inl (RequestError ''rejected'')"
    by (simp add: fail_world_def)
  have price: "get_brl_price buy_world ''BTC'' = Finite 99999"
    by (simp add: get_brl_price_def buy_world_def demo_world_def)
  have sent: "orders_sent (snd (api_ordem demo_lib fail_world buy_request init_state)) = [?q]"
    by (simp add: api_ordem_def buy_request_def fail_world_def demo_world_def init_state_def
      order_and_record_def place_order_def get_brl_price_def upper_buy upper_BUY Let_def)
  have i: "orders_sent init_state = []" "blockchain init_state = []" "log init_state = []"
    by (simp_all add: init_state_def)
  have 1: "\<exists>b. blockchain (poll_cycle demo_lib [] buy_world init_state) = [b]
         \<and> map_of b ''operation''
             = Some (PDict [(''side'', PStr ''BUY''), (''asset'', PStr ''BTC''),
                            (''quantity'', PFloat (Finite (50 / 99999))),
                            (''price'', PFloat (Finite 99999))])"
    using order_and_ledger_coupled [OF r, of buy_world buy_request] poll_buy_orders [of buy_world]
    by (auto simp: coupled_def i ok price)
  have 2: "blockchain (poll_cycle demo_lib [] buy_fail_world init_state) = []
   \<and> (\<exists>pre. log (poll_cycle demo_lib [] buy_fail_world init_state)
         = pre @ [(ERROR, BuyError (RequestError ''rejected''))])"
    using order_and_ledger_coupled [OF r, of buy_fail_world buy_request]
      poll_buy_orders [of buy_fail_world]
    by (auto simp: coupled_def i ko)
  have 3: "blockchain (snd (api_ordem demo_lib fail_world buy_request init_state)) = []
   \<and> log (snd (api_ordem demo_lib fail_world buy_request init_state)) = []"
    using order_and_ledger_coupled [OF r, of fail_world buy_request] sent
    by (auto simp: coupled_def i ko2)
  from r 1 2 3 show ?thesis by blast
qed

section \<open>Stored balances\<close>

lemma nonzero_loop_skip:
  "total_of L b = Some t \<Longrightarrow> \<not> flt_gt t (Finite 0) \<Longrightarrow>
   nonzero_loop L (b # bs) out = nonzero_loop L bs out"
  by (auto simp: total_of_def Let_def split: sum.splits)

lemma hash_key_KStr: "hash_key v = Inr (KStr a) \<Longrightarrow> v = PStr a"
  by (cases v) simp_all

lemma nonzero_loop_keys:
  "nonzero_loop L bs out = Inr out' \<Longrightarrow> map_of out' k = Some v \<Longrightarrow>
   map_of out k = Some v
   \<or> (\<exists>b\<in>set bs. \<exists>a. asset b = Some a \<and> hash_key a = Inr k
          \<and> total_of L b = Some v \<and> flt_gt v (Finite 0))"
proof (induction bs arbitrary: out)
  case Nil
  then show ?case by simp
next
  case (Cons b bs)
  from Cons.prems(1) obtain t where t: "total_of L b = Some t"
    by (auto simp: total_of_def split: sum.splits)
  show ?case
  proof (cases "flt_gt t (Finite 0)")
    case False
    have "nonzero_loop L bs out = nonzero_loop L (b # bs) out"
      by (rule nonzero_loop_skip [OF t False, symmetric])
    also have "\<dots> = Inr out'"
      by (rule Cons.prems(1))
    finally have "nonzero_loop L bs out = Inr out'" .
    from Cons.IH [OF this Cons.prems(2)] show ?thesis by auto
  next
    case True
    with Cons.prems(1) t obtain a j where a: "asset b = Some a" and j: "hash_key a = Inr j"
      and r: "nonzero_loop L bs (AList.update j t out) = Inr out'"
      by (auto simp: total_of_def Let_def split: sum.splits option.splits)
    from Cons.IH [OF r Cons.prems(2)] show ?thesis
      using a j t True by (auto simp: update_conv' split: if_splits)
  qed
qed

lemma nonzero_loop_distinct:
  "nonzero_loop L bs out = Inr out' \<Longrightarrow> distinct (map fst out) \<Longrightarrow> distinct (map fst out')"
proof (induction bs arbitrary: out)
  case Nil
  then show ?case by simp
next
  case (Cons b bs)
  then show ?case
    by (auto simp: Let_def distinct_update split: sum.splits option.splits if_splits)
qed

lemma get_nonzero_balances_entries:
  assumes "get_nonzero_balances L acct = Inr nonzero" and "(KStr a, v) \<in> set nonzero"
  shows "flt_gt v (Finite 0)
     \<and> (\<exists>b\<in>set acct. asset b = Some (PStr a) \<and> total_of L b = Some v)"
proof -
  from assms(1) have "distinct (map fst nonzero)"
    using nonzero_loop_distinct [of L acct "[]" nonzero] by (simp add: get_nonzero_balances_def)
  with assms(2) have "map_of nonzero (KStr a) = Some v" by simp
  with assms(1) nonzero_loop_keys [of L acct "[]" nonzero "KStr a" v] show ?thesis
    by (auto simp: get_nonzero_balances_def dest: hash_key_KStr)
qed

text \<open>
  Entries whose total is negative can be taken out of the fetched list without
  changing what \<open>get_nonzero_balances\<close> returns or raises.
\<close>

lemma nonzero_loop_without_negative:
  "nonzero_loop L (filter (\<lambda>b. \<not> negative_total L b) bs) out = nonzero_loop L bs out"
proof (induction bs arbitrary: out)
  case Nil
  show ?case by simp
next
  case (Cons b bs)
  show ?case
  proof (cases "negative_total L b")
    case True
    then obtain t where t: "total_of L b = Some t" and n: "flt_lt t (Finite 0)"
      by (auto simp: negative_total_def split: option.splits)
    from n have "\<not> flt_gt t (Finite 0)"
      by (cases t) (auto simp: flt_gt_def)
    from nonzero_loop_skip [OF t this, of bs out] True Cons.IH [of out]
    show ?thesis by (simp del: nonzero_loop.simps)
  next
    case False
    then show ?thesis
      by (simp add: Cons.IH Let_def split: sum.splits option.splits)
  qed
qed

lemma spot_loop_lookup:
  "map_of (prev_balances (snd (spot_loop W xs s))) a = map_of (prev_balances s) a
   \<or> (\<exists>v. (KStr a, v) \<in> set xs
          \<and> map_of (prev_balances (snd (spot_loop W xs s))) a = Some v)"
proof (induction xs arbitrary: s)
  case Nil
  show ?case by simp
next
  case (Cons x xs)
  show ?case
  proof (cases "fst x")
    case (KStr b)
    let ?s1 = "s\<lparr>prev_balances := AList.update b (snd x) (prev_balances s),
        log := log s @ [(INFO, SpotLine b (snd x)
          (flt_mul (snd x) (get_brl_price W b))
          (flt_sub (snd x) (dict_get (prev_balances s) b (Finite 0))))]\<rparr>"
    have step: "spot_loop W (x # xs) s = spot_loop W xs ?s1"
      using KStr by (simp add: Let_def)
    from KStr have x: "x = (KStr b, snd x)"
      by (cases x) simp
    from Cons.IH [of ?s1] consider
        (same) "map_of (prev_balances (snd (spot_loop W xs ?s1))) a = map_of (prev_balances ?s1) a"
      | (written) v where "(KStr a, v) \<in> set xs"
          "map_of (prev_balances (snd (spot_loop W xs ?s1))) a = Some v"
      by blast
    then show ?thesis
    proof cases
      case same
      show ?thesis
      proof (cases "a = b")
        case True
        with same have "map_of (prev_balances (snd (spot_loop W xs ?s1))) a = Some (snd x)"
          by (simp add: update_conv')
        moreover from x True have "(KStr a, snd x) \<in> set (x # xs)"
          by (metis list.set_intros(1))
        ultimately show ?thesis
          unfolding step by blast
      next
        case False
        with same have "map_of (prev_balances (snd (spot_loop W xs ?s1))) a
            = map_of (prev_balances s) a"
          by (simp add: update_conv')
        then show ?thesis
          unfolding step by blast
      qed
    next
      case written
      then have "(KStr a, v) \<in> set (x # xs)" by simp
      with written(2) show ?thesis
        unfolding step by blast
    qed
  next
    case (KNum f)
    then show ?thesis by simp
  next
    case KNone
    then show ?thesis by simp
  qed
qed

lemma trade_section_balances:
  "trade_section L W s = Inr s' \<Longrightarrow>
   prev_balances s' = prev_balances s \<and> prev_onchain_btc s' = prev_onchain_btc s"
  by (auto simp: trade_section_def Let_def
      split: if_splits sum.splits prod.splits dest!: order_and_record_frame)

lemma poll_cycle_balances:
  "prev_balances (poll_cycle L addrs W s) = prev_balances (snd (spot_section L W s))"
proof -
  obtain r s1 where sp: "spot_section L W s = (r, s1)"
    by (cases "spot_section L W s")
  show ?thesis
  proof (cases r)
    case (Some e)
    with sp show ?thesis by (simp add: poll_cycle_def)
  next
    case None
    from trade_section_total obtain s3
      where t: "trade_section L W (onchain_section addrs W s1) = Inr s3"
      by blast
    from trade_section_balances [OF t] onchain_section_frame [of addrs W s1] sp None t
    show ?thesis by (simp add: poll_cycle_def Let_def)
  qed
qed

lemma poll_cycle_spot_lookup:
  "map_of (prev_balances (poll_cycle L addrs W s)) a = map_of (prev_balances s) a
   \<or> (\<exists>acct nonzero v. spot_account W = Inr acct \<and> get_nonzero_balances L acct = Inr nonzero
        \<and> (KStr a, v) \<in> set nonzero
        \<and> map_of (prev_balances (poll_cycle L addrs W s)) a = Some v)"
proof (cases "spot_account W")
  case (Inl e)
  then show ?thesis by (simp add: poll_cycle_balances spot_section_def)
next
  case (Inr acct)
  show ?thesis
  proof (cases "get_nonzero_balances L acct")
    case (Inl e)
    with Inr show ?thesis by (simp add: poll_cycle_balances spot_section_def)
  next
    case nz: (Inr nonzero)
    with Inr have "spot_section L W s = spot_loop W nonzero s"
      by (simp add: spot_section_def)
    with spot_loop_lookup [of W nonzero s a] Inr nz show ?thesis
      by (auto simp: poll_cycle_balances)
  qed
qed

lemma float_dict_lookup:
  "map_of (map (\<lambda>kv. (fst kv, PFloat (snd kv))) d) a = map_option PFloat (map_of d a)"
  by (induction d) auto

lemma onchain_loop_lookup:
  "map_of (prev_onchain_btc (onchain_loop W xs s)) addr =
     (if addr \<in> set xs
      then (case get_btc_onchain_balance W addr of
              Inl e \<Rightarrow> map_of (prev_onchain_btc s) addr
            | Inr bal \<Rightarrow> Some bal)
      else map_of (prev_onchain_btc s) addr)"
proof (induction xs arbitrary: s)
  case Nil
  show ?case by simp
next
  case (Cons x xs)
  show ?case
    by (cases "get_btc_onchain_balance W x")
      (auto simp: Cons.IH Let_def update_conv' split: sum.splits)
qed

lemma get_btc_onchain_balance_sats:
  "onchain_sats W addr = Inr (PInt n) \<Longrightarrow> \<bar>n\<bar> < 2 ^ 1024 - 2 ^ 970 \<Longrightarrow>
   get_btc_onchain_balance W addr = Inr (Finite (of_int n / 100000000))"
  by (simp add: get_btc_onchain_balance_def int_to_float_def)

lemma poll_cycle_onchain:
  assumes "spot_section L W s = (None, s1)"
  shows "prev_onchain_btc (poll_cycle L addrs W s) = prev_onchain_btc (onchain_section addrs W s1)"
proof -
  from trade_section_total obtain s3 where t: "trade_section L W (onchain_section addrs W s1) = Inr s3"
    by blast
  with trade_section_balances [OF t] assms show ?thesis
    by (simp add: poll_cycle_def Let_def)
qed

lemma spot_loop_errors:
  "(ERROR, m) \<in> set (log (snd (spot_loop W xs s))) \<Longrightarrow> (ERROR, m) \<in> set (log s)"
proof (induction xs arbitrary: s)
  case Nil
  then show ?case by simp
next
  case (Cons x xs)
  show ?case
  proof (cases "fst x")
    case (KStr b)
    let ?s1 = "s\<lparr>prev_balances := AList.update b (snd x) (prev_balances s),
        log := log s @ [(INFO, SpotLine b (snd x)
          (flt_mul (snd x) (get_brl_price W b))
          (flt_sub (snd x) (dict_get (prev_balances s) b (Finite 0))))]\<rparr>"
    from Cons.prems KStr have "(ERROR, m) \<in> set (log (snd (spot_loop W xs ?s1)))"
      by (simp add: Let_def)
    from Cons.IH [OF this] show ?thesis by simp
  next
    case (KNum f)
    with Cons.prems show ?thesis by simp
  next
    case KNone
    with Cons.prems show ?thesis by simp
  qed
qed

lemma spot_section_errors:
  "(ERROR, m) \<in> set (log (snd (spot_section L W s))) \<Longrightarrow> (ERROR, m) \<in> set (log s)"
  by (auto simp: spot_section_def split: sum.splits dest: spot_loop_errors)

lemma onchain_loop_errors:
  "(ERROR, GeneralError e) \<in> set (log (onchain_loop W xs s)) \<Longrightarrow>
   (ERROR, GeneralError e) \<in> set (log s)"
proof (induction xs arbitrary: s)
  case Nil
  then show ?case by simp
next
  case (Cons x xs)
  show ?case
  proof (cases "get_btc_onchain_balance W x")
    case (Inl e')
    with Cons.prems have "(ERROR, GeneralError e)
        \<in> set (log (onchain_loop W xs (s\<lparr>log := log s @ [(ERROR, OnchainError x e')]\<rparr>)))"
      by simp
    from Cons.IH [OF this] show ?thesis by simp
  next
    case (Inr bal)
    with Cons.prems have "(ERROR, GeneralError e)
        \<in> set (log (onchain_loop W xs
             (s\<lparr>prev_onchain_btc := AList.update x bal (prev_onchain_btc s),
                log := log s @ [(INFO, OnchainLine x bal
                   (flt_sub bal (dict_get (prev_onchain_btc s) x (Finite 0))))]\<rparr>)))"
      by (simp add: Let_def)
    from Cons.IH [OF this] show ?thesis by simp
  qed
qed

lemma trade_section_errors:
  "trade_section L W s = Inr s' \<Longrightarrow> (ERROR, GeneralError e) \<in> set (log s') \<Longrightarrow>
   (ERROR, GeneralError e) \<in> set (log s)"
  by (auto simp: trade_section_def Let_def
      split: if_splits sum.splits prod.splits dest!: order_and_record_frame)

lemma poll_cycle_errors:
  assumes "fst (spot_section L W s) = None"
    and "(ERROR, GeneralError e) \<in> set (log (poll_cycle L addrs W s))"
  shows "(ERROR, GeneralError e) \<in> set (log s)"
proof -
  from assms(1) obtain s1 where sp: "spot_section L W s = (None, s1)"
    by (cases "spot_section L W s") simp
  from trade_section_total obtain s3 where t: "trade_section L W (onchain_section addrs W s1) = Inr s3"
    by blast
  with assms(2) sp have "(ERROR, GeneralError e) \<in> set (log s3)"
    by (simp add: poll_cycle_def Let_def)
  from trade_section_errors [OF t this]
  have "(ERROR, GeneralError e) \<in> set (log s1)"
    using onchain_loop_errors [of e W addrs s1] by (simp add: onchain_section_def split: if_splits)
  with sp spot_section_errors [of "GeneralError e" L W s] show ?thesis
    by simp
qed

text \<open>
  The spot section raises nothing when the account is fetched, the two amounts of
  every entry convert to floats and every entry with a total above zero names its
  asset by a string.
\<close>

lemma nonzero_loop_completes:
  assumes "\<forall>b\<in>set bs. \<exists>t. total_of L b = Some t
             \<and> (flt_gt t (Finite 0) \<longrightarrow> (\<exists>a. asset b = Some (PStr a)))"
    and "\<forall>k\<in>fst ` set out. \<exists>a. k = KStr a"
  shows "\<exists>out'. nonzero_loop L bs out = Inr out' \<and> (\<forall>k\<in>fst ` set out'. \<exists>a. k = KStr a)"
  using assms
proof (induction bs arbitrary: out)
  case Nil
  then show ?case by simp
next
  case (Cons b bs)
  from Cons.prems(1) obtain t where t: "total_of L b = Some t"
    and a: "flt_gt t (Finite 0) \<longrightarrow> (\<exists>a. asset b = Some (PStr a))"
    by auto
  from Cons.prems(1) have rest: "\<forall>b\<in>set bs. \<exists>t. total_of L b = Some t
             \<and> (flt_gt t (Finite 0) \<longrightarrow> (\<exists>a. asset b = Some (PStr a)))"
    by simp
  show ?case
  proof (cases "flt_gt t (Finite 0)")
    case False
    from nonzero_loop_skip [OF t False, of bs out] Cons.IH [OF rest Cons.prems(2)]
    show ?thesis by simp
  next
    case True
    with a obtain x where x: "asset b = Some (PStr x)" by blast
    have keys: "\<forall>k\<in>fst ` set (AList.update (KStr x) t out). \<exists>a. k = KStr a"
      using Cons.prems(2) by (auto simp: dom_update)
    have "nonzero_loop L (b # bs) out = nonzero_loop L bs (AList.update (KStr x) t out)"
      using t True x by (auto simp: total_of_def Let_def split: sum.splits)
    with Cons.IH [OF rest keys] show ?thesis by simp
  qed
qed

lemma spot_loop_completes:
  "\<forall>k\<in>fst ` set xs. \<exists>a. k = KStr a \<Longrightarrow> fst (spot_loop W xs s) = None"
  by (induction xs arbitrary: s) (auto simp: Let_def)

lemma spot_section_completes:
  assumes "spot_account W = Inr acct"
    and "\<forall>b\<in>set acct. \<exists>t. total_of L b = Some t
             \<and> (flt_gt t (Finite 0) \<longrightarrow> (\<exists>a. asset b = Some (PStr a)))"
  shows "fst (spot_section L W s) = None"
proof -
  from nonzero_loop_completes [OF assms(2), of "[]"] obtain nonzero
    where "get_nonzero_balances L acct = Inr nonzero" "\<forall>k\<in>fst ` set nonzero. \<exists>a. k = KStr a"
    by (auto simp: get_nonzero_balances_def)
  with assms(1) spot_loop_completes [of nonzero W s] show ?thesis
    by (simp add: spot_section_def)
qed

text \<open>
  The sections of a poll cycle read the account only through \<open>spot_account\<close>.
\<close>

lemma spot_loop_world:
  "spot_loop (W\<lparr>spot_account := x\<rparr>) xs s = spot_loop W xs s"
  by (induction xs arbitrary: s) (simp_all add: Let_def get_brl_price_def split: pykey.splits)


lemma get_btc_onchain_balance_world:
  "get_btc_onchain_balance (W\<lparr>spot_account := x\<rparr>) addr = get_btc_onchain_balance W addr"
  by (simp add: get_btc_onchain_balance_def)

lemma onchain_loop_world:
  "onchain_loop (W\<lparr>spot_account := x\<rparr>) xs s = onchain_loop W xs s"
  by (induction xs arbitrary: s)
    (simp_all add: Let_def get_btc_onchain_balance_world split: sum.splits)

lemma get_brl_price_world:
  "get_brl_price (W\<lparr>spot_account := x\<rparr>) a = get_brl_price W a"
  by (simp add: get_brl_price_def)

lemma order_and_record_world:
  "order_and_record L (W\<lparr>spot_account := x\<rparr>) sd qty price s
   = order_and_record L W sd qty price s"
  by (simp add: order_and_record_def place_order_def Let_def split: sum.splits)

lemma trade_section_world:
  "trade_section L (W\<lparr>spot_account := x\<rparr>) s = trade_section L W s"
  by (simp add: trade_section_def get_brl_price_world order_and_record_world
      cong: if_cong sum.case_cong)

lemma poll_cycle_without_negative:
  assumes "spot_account W = Inr acct"
  shows "poll_cycle L addrs (W\<lparr>spot_account := Inr (filter (\<lambda>b. \<not> negative_total L b) acct)\<rparr>) s
     = poll_cycle L addrs W s"
proof -
  have "spot_section L (W\<lparr>spot_account := Inr (filter (\<lambda>b. \<not> negative_total L b) acct)\<rparr>) s
      = spot_section L W s"
    using assms
    by (simp add: spot_section_def get_nonzero_balances_def nonzero_loop_without_negative
        spot_loop_world split: sum.splits)
  then show ?thesis
    by (simp add: poll_cycle_def onchain_section_def onchain_loop_world trade_section_world
        split: prod.splits option.splits)
qed

text \<open>
  C10. The spot update of a poll cycle writes \<open>prev_balances\<close> only for assets with
  a fetched total above zero and deletes no key. So a key of the stored snapshot
  stays a key; a stored value that changes becomes a fetched total that is above
  zero; and an asset all of whose fetched totals are not above zero, or that is
  absent from the fetch (or whose fetch fails), keeps its stored value. That stale
  value is what \<open>GET /saldo\<close> returns for the asset and what the decision reads.
\<close>

theorem stale_spot_balance:
  "(let s' = poll_cycle L addrs W s in
      (map_of (prev_balances s) a \<noteq> None \<longrightarrow> map_of (prev_balances s') a \<noteq> None)
    \<and> (map_of (prev_balances s') a \<noteq> map_of (prev_balances s) a \<longrightarrow>
         (\<exists>acct b v. spot_account W = Inr acct \<and> b \<in> set acct \<and> asset b = Some (PStr a)
            \<and> total_of L b = Some v \<and> flt_gt v (Finite 0)
            \<and> map_of (prev_balances s') a = Some v))
    \<and> ((\<forall>acct. spot_account W = Inr acct \<longrightarrow>
           (\<forall>b\<in>set acct. asset b = Some (PStr a) \<longrightarrow>
              (\<forall>t. total_of L b = Some t \<longrightarrow> \<not> flt_gt t (Finite 0)))) \<longrightarrow>
         map_of (prev_balances s') a = map_of (prev_balances s) a
         \<and> dict_get (prev_balances s') a (Finite 0) = dict_get (prev_balances s) a (Finite 0)
         \<and> (\<exists>d rest. api_saldo s' = Response 200 (PDict ((''spot'', PDict d) # rest))
               \<and> map_of d a = map_option PFloat (map_of (prev_balances s) a))))"
proof -
  let ?s' = "poll_cycle L addrs W s"
  have w: "map_of (prev_balances ?s') a \<noteq> map_of (prev_balances s) a \<longrightarrow>
         (\<exists>acct b v. spot_account W = Inr acct \<and> b \<in> set acct \<and> asset b = Some (PStr a)
            \<and> total_of L b = Some v \<and> flt_gt v (Finite 0)
            \<and> map_of (prev_balances ?s') a = Some v)"
  proof
    assume "map_of (prev_balances ?s') a \<noteq> map_of (prev_balances s) a"
    with poll_cycle_spot_lookup [of L addrs W s a]
    obtain acct nonzero v where f: "spot_account W = Inr acct"
      "get_nonzero_balances L acct = Inr nonzero" "(KStr a, v) \<in> set nonzero"
      "map_of (prev_balances ?s') a = Some v"
      by blast
    from get_nonzero_balances_entries [OF f(2) f(3)] f(1) f(4)
    show "\<exists>acct b v. spot_account W = Inr acct \<and> b \<in> set acct \<and> asset b = Some (PStr a)
            \<and> total_of L b = Some v \<and> flt_gt v (Finite 0)
            \<and> map_of (prev_balances ?s') a = Some v"
      by blast
  qed
  have k: "map_of (prev_balances s) a \<noteq> None \<longrightarrow> map_of (prev_balances ?s') a \<noteq> None"
    using w by (cases "map_of (prev_balances ?s') a = map_of (prev_balances s) a") auto
  have st: "(\<forall>acct. spot_account W = Inr acct \<longrightarrow>
           (\<forall>b\<in>set acct. asset b = Some (PStr a) \<longrightarrow>
              (\<forall>t. total_of L b = Some t \<longrightarrow> \<not> flt_gt t (Finite 0)))) \<longrightarrow>
         map_of (prev_balances ?s') a = map_of (prev_balances s) a
         \<and> dict_get (prev_balances ?s') a (Finite 0) = dict_get (prev_balances s) a (Finite 0)
         \<and> (\<exists>d rest. api_saldo ?s' = Response 200 (PDict ((''spot'', PDict d) # rest))
               \<and> map_of d a = map_option PFloat (map_of (prev_balances s) a))"
  proof
    assume h: "\<forall>acct. spot_account W = Inr acct \<longrightarrow>
           (\<forall>b\<in>set acct. asset b = Some (PStr a) \<longrightarrow>
              (\<forall>t. total_of L b = Some t \<longrightarrow> \<not> flt_gt t (Finite 0)))"
    with w have e: "map_of (prev_balances ?s') a = map_of (prev_balances s) a"
      by blast
    then have "dict_get (prev_balances ?s') a (Finite 0) = dict_get (prev_balances s) a (Finite 0)"
      by (simp add: dict_get_def)
    moreover have "\<exists>d rest. api_saldo ?s' = Response 200 (PDict ((''spot'', PDict d) # rest))
               \<and> map_of d a = map_option PFloat (map_of (prev_balances s) a)"
      using e by (simp add: api_saldo_def float_dict_def float_dict_lookup)
    ultimately show "map_of (prev_balances ?s') a = map_of (prev_balances s) a
         \<and> dict_get (prev_balances ?s') a (Finite 0) = dict_get (prev_balances s) a (Finite 0)
         \<and> (\<exists>d rest. api_saldo ?s' = Response 200 (PDict ((''spot'', PDict d) # rest))
               \<and> map_of d a = map_option PFloat (map_of (prev_balances s) a))"
      using e by blast
  qed
  from k w st show ?thesis unfolding Let_def by blast
qed

lemma zero_total:
  "total_of demo_lib
     \<lparr>asset = Some (PStr ''BTC''), free = Some (PStr ''0.0''), locked = Some (PStr ''0.0'')\<rparr>
   = Some (Finite 0)"
  by (simp add: total_of_def get_or_zero_def demo_lib_def)

theorem stale_spot_balance_witness:
  "map_of (prev_balances held_state) ''BTC'' = Some (Finite 1)
   \<and> spot_account stale_world
       = Inr [\<lparr>asset = Some (PStr ''BTC''), free = Some (PStr ''0.0''),
               locked = Some (PStr ''0.0'')\<rparr>]
   \<and> total_of demo_lib
       \<lparr>asset = Some (PStr ''BTC''), free = Some (PStr ''0.0''), locked = Some (PStr ''0.0'')\<rparr>
       = Some (Finite 0)
   \<and> \<not> flt_gt (Finite 0) (Finite 0)
   \<and> map_of (prev_balances (poll_cycle demo_lib [] stale_world held_state)) ''BTC''
       = Some (Finite 1)
   \<and> dict_get (prev_balances (poll_cycle demo_lib [] stale_world held_state)) ''BTC'' (Finite 0)
       = Finite 1"
  using stale_spot_balance [of demo_lib "[]" stale_world held_state "''BTC''"] zero_total
  by (simp add: Let_def held_state_def init_state_def stale_world_def flt_gt_def dict_get_def)

text \<open>
  C7, as stated, fails: an on-chain balance of \<open>-100000000\<close> satoshis is stored as
  \<open>-1.0\<close> in place of the previous value \<open>2.0\<close> and logged as an ordinary line; and
  the spot entry of the same cycle with the total \<open>-1.0\<close> is passed over with no
  error and no log line.
\<close>

theorem negative_onchain_balance_is_stored:
  "map_of (prev_onchain_btc held_state) ''addr1'' = Some (Finite 2)
   \<and> onchain_sats neg_world ''addr1'' = Inr (PInt (- 100000000))
   \<and> prev_onchain_btc (poll_cycle demo_lib [''addr1''] neg_world held_state)
       = [(''addr1'', Finite (- 1))]
   \<and> prev_balances (poll_cycle demo_lib [''addr1''] neg_world held_state)
       = [(''BTC'', Finite 1)]
   \<and> log (poll_cycle demo_lib [''addr1''] neg_world held_state)
       = [(INFO, OnchainLine ''addr1'' (Finite (- 1)) (Finite (- 3)))]"
  by (simp add: poll_cycle_def spot_section_def get_nonzero_balances_def get_or_zero_def
      neg_world_def demo_world_def demo_lib_def held_state_def init_state_def
      onchain_section_def get_btc_onchain_balance_def int_to_float_def trade_section_def
      dict_get_def flt_gt_def flt_sub_def get_brl_price_def Let_def)

text \<open>
  C7, amended. The program has no \<open>DataIntegrityError\<close> and checks no balance for
  being negative. A spot entry whose total is negative has no effect: the poll
  cycle runs exactly as it would with that entry taken out of the fetched account,
  so nothing is raised or logged for it and nothing is stored or clamped, and an
  asset all of whose fetched totals are negative keeps its stored value. The spot
  section of the cycle raises nothing when the account is fetched, the two amounts
  of every entry convert to floats and every entry with a total above zero names
  its asset by a string. When the spot section raises nothing, an on-chain balance
  that the explorer reports as an integer within the range of the doubles is stored
  as observed, whatever its sign (satoshis divided by \<open>1e8\<close>), in place of the
  previous value, and no exception reaches the outer handler of the cycle.
\<close>

theorem negative_balances_unchecked:
  "(\<forall>acct. spot_account W = Inr acct \<longrightarrow>
      poll_cycle L addrs
          (W\<lparr>spot_account := Inr (filter (\<lambda>b. \<not> negative_total L b) acct)\<rparr>) s
        = poll_cycle L addrs W s)
   \<and> (\<forall>a. (\<forall>acct. spot_account W = Inr acct \<longrightarrow>
              (\<forall>b\<in>set acct. asset b = Some (PStr a) \<longrightarrow> negative_total L b)) \<longrightarrow>
          map_of (prev_balances (poll_cycle L addrs W s)) a = map_of (prev_balances s) a)
   \<and> (\<forall>acct. spot_account W = Inr acct
          \<and> (\<forall>b\<in>set acct. \<exists>t. total_of L b = Some t
                 \<and> (flt_gt t (Finite 0) \<longrightarrow> (\<exists>a. asset b = Some (PStr a)))) \<longrightarrow>
          fst (spot_section L W s) = None)
   \<and> (\<forall>addr n. fst (spot_section L W s) = None \<and> addr \<in> set addrs
          \<and> onchain_sats W addr = Inr (PInt n) \<and> \<bar>n\<bar> < 2 ^ 1024 - 2 ^ 970 \<longrightarrow>
          map_of (prev_onchain_btc (poll_cycle L addrs W s)) addr
            = Some (Finite (of_int n / 100000000)))
   \<and> (fst (spot_section L W s) = None \<longrightarrow>
        (\<forall>e. (ERROR, GeneralError e) \<in> set (log (poll_cycle L addrs W s)) \<longrightarrow>
             (ERROR, GeneralError e) \<in> set (log s)))"
proof -
  have 1: "\<forall>acct. spot_account W = Inr acct \<longrightarrow>
      poll_cycle L addrs
          (W\<lparr>spot_account := Inr (filter (\<lambda>b. \<not> negative_total L b) acct)\<rparr>) s
        = poll_cycle L addrs W s"
    using poll_cycle_without_negative by blast
  have 2: "\<forall>a. (\<forall>acct. spot_account W = Inr acct \<longrightarrow>
              (\<forall>b\<in>set acct. asset b = Some (PStr a) \<longrightarrow> negative_total L b)) \<longrightarrow>
          map_of (prev_balances (poll_cycle L addrs W s)) a = map_of (prev_balances s) a"
  proof (intro allI impI)
    fix a
    assume h: "\<forall>acct. spot_account W = Inr acct \<longrightarrow>
              (\<forall>b\<in>set acct. asset b = Some (PStr a) \<longrightarrow> negative_total L b)"
    have n: "negative_total L b \<Longrightarrow> total_of L b = Some v \<Longrightarrow> \<not> flt_gt v (Finite 0)" for b v
      by (cases v) (auto simp: negative_total_def flt_gt_def)
    show "map_of (prev_balances (poll_cycle L addrs W s)) a = map_of (prev_balances s) a"
    proof (rule ccontr)
      assume "map_of (prev_balances (poll_cycle L addrs W s)) a \<noteq> map_of (prev_balances s) a"
      with poll_cycle_spot_lookup [of L addrs W s a]
      obtain acct nonzero v where f: "spot_account W = Inr acct"
        "get_nonzero_balances L acct = Inr nonzero" "(KStr a, v) \<in> set nonzero"
        by blast
      from get_nonzero_balances_entries [OF f(2) f(3)]
      obtain b where b: "b \<in> set acct" "asset b = Some (PStr a)" "total_of L b = Some v"
        "flt_gt v (Finite 0)" by blast
      from h f(1) b(1) b(2) have "negative_total L b" by blast
      from n [OF this b(3)] b(4) show False by blast
    qed
  qed
  have 3: "\<forall>addr n. fst (spot_section L W s) = None \<and> addr \<in> set addrs
          \<and> onchain_sats W addr = Inr (PInt n) \<and> \<bar>n\<bar> < 2 ^ 1024 - 2 ^ 970 \<longrightarrow>
          map_of (prev_onchain_btc (poll_cycle L addrs W s)) addr
            = Some (Finite (of_int n / 100000000))"
  proof (intro allI impI)
    fix addr n
    assume h: "fst (spot_section L W s) = None \<and> addr \<in> set addrs
          \<and> onchain_sats W addr = Inr (PInt n) \<and> \<bar>n\<bar> < 2 ^ 1024 - 2 ^ 970"
    then obtain s1 where sp: "spot_section L W s = (None, s1)"
      by (cases "spot_section L W s") simp
    from h have ne: "addrs \<noteq> []" by auto
    from h have g: "get_btc_onchain_balance W addr = Inr (Finite (of_int n / 100000000))"
      by (simp add: get_btc_onchain_balance_sats)
    from h ne g show "map_of (prev_onchain_btc (poll_cycle L addrs W s)) addr
            = Some (Finite (of_int n / 100000000))"
      by (simp add: poll_cycle_onchain [OF sp] onchain_section_def onchain_loop_lookup)
  qed
  have 4: "fst (spot_section L W s) = None \<longrightarrow>
        (\<forall>e. (ERROR, GeneralError e) \<in> set (log (poll_cycle L addrs W s)) \<longrightarrow>
             (ERROR, GeneralError e) \<in> set (log s))"
    using poll_cycle_errors [of L W s] by blast
  have 5: "\<forall>acct. spot_account W = Inr acct
          \<and> (\<forall>b\<in>set acct. \<exists>t. total_of L b = Some t
                 \<and> (flt_gt t (Finite 0) \<longrightarrow> (\<exists>a. asset b = Some (PStr a)))) \<longrightarrow>
          fst (spot_section L W s) = None"
    using spot_section_completes [of W _ L s] by blast
  from 1 2 5 3 4 show ?thesis by blast
qed

lemma neg_total:
  "negative_total demo_lib
     \<lparr>asset = Some (PStr ''BTC''), free = Some (PStr ''-1.0''), locked = Some (PStr ''0.0'')\<rparr>"
  by (simp add: negative_total_def total_of_def get_or_zero_def demo_lib_def)

theorem negative_balances_unchecked_witness:
  "spot_account neg_world
     = Inr [\<lparr>asset = Some (PStr ''BTC''), free = Some (PStr ''-1.0''),
             locked = Some (PStr ''0.0'')\<rparr>]
   \<and> negative_total demo_lib
       \<lparr>asset = Some (PStr ''BTC''), free = Some (PStr ''-1.0''), locked = Some (PStr ''0.0'')\<rparr>
   \<and> poll_cycle demo_lib [''addr1''] (neg_world\<lparr>spot_account := Inr []\<rparr>) held_state
     = poll_cycle demo_lib [''addr1''] neg_world held_state
   \<and> fst (spot_section demo_lib neg_world held_state) = None
   \<and> onchain_sats neg_world ''addr1'' = Inr (PInt (- 100000000))
   \<and> map_of (prev_balances (poll_cycle demo_lib [''addr1''] neg_world held_state)) ''BTC''
     = Some (Finite 1)
   \<and> map_of (prev_onchain_btc (poll_cycle demo_lib [''addr1''] neg_world held_state)) ''addr1''
     = Some (Finite (- 1))
   \<and> (ERROR, GeneralError KeyError)
       \<notin> set (log (poll_cycle demo_lib [''addr1''] neg_world held_state))"
proof -
  let ?b = "\<lparr>asset = Some (PStr ''BTC''), free = Some (PStr ''-1.0''),
             locked = Some (PStr ''0.0'')\<rparr>"
  have a: "spot_account neg_world = Inr [?b]"
    by (simp add: neg_world_def)
  have tot: "total_of demo_lib ?b = Some (Finite (- 1))" "\<not> flt_gt (Finite (- 1)) (Finite 0)"
    by (simp_all add: total_of_def get_or_zero_def demo_lib_def flt_gt_def)
  from negative_balances_unchecked [of neg_world demo_lib "[''addr1'']" held_state] a tot
  have sp: "fst (spot_section demo_lib neg_world held_state) = None"
    by simp
  have o: "onchain_sats neg_world ''addr1'' = Inr (PInt (- 100000000))"
    by (simp add: neg_world_def)
  have h: "map_of (prev_balances held_state) ''BTC'' = Some (Finite 1)" "log held_state = []"
    by (simp_all add: held_state_def init_state_def)
  have r: "\<bar>- 100000000 :: int\<bar> < 2 ^ 1024 - 2 ^ 970"
    by simp
  from negative_balances_unchecked [of neg_world demo_lib "[''addr1'']" held_state]
    a neg_total sp o h r
  have "poll_cycle demo_lib [''addr1''] (neg_world\<lparr>spot_account := Inr []\<rparr>) held_state
     = poll_cycle demo_lib [''addr1''] neg_world held_state"
    and "map_of (prev_balances (poll_cycle demo_lib [''addr1''] neg_world held_state)) ''BTC''
     = Some (Finite 1)"
    and "map_of (prev_onchain_btc (poll_cycle demo_lib [''addr1''] neg_world held_state)) ''addr1''
     = Some (Finite (- 1))"
    and "(ERROR, GeneralError KeyError)
       \<notin> set (log (poll_cycle demo_lib [''addr1''] neg_world held_state))"
    by auto
  with a neg_total sp o show ?thesis by simp
qed

section \<open>Responses of api\_ordem\<close>

text \<open>
  The guard of \<open>api_ordem\<close> and its two conversions stand before its \<open>try\<close>, so
  what they raise leaves the handler. A body that is a number other than zero, or
  \<open>true\<close>, makes \<open>"side" in data\<close> raise \<open>TypeError\<close>; an array or a string that
  contains both names passes the guard and makes \<open>data["side"]\<close> raise
  \<open>TypeError\<close>; in an object with both fields, a \<open>side\<close> that is not a string
  makes \<open>.upper()\<close> raise, and a \<open>quantity\<close> that does not convert makes
  \<open>float(...)\<close> raise. The state is left as it was.
\<close>

lemma api_ordem_raises:
  "((\<exists>i. data = PInt i \<and> i \<noteq> 0) \<or> data = PBool True
      \<or> (\<exists>f. data = PFloat f \<and> f \<noteq> Finite 0)
      \<or> (\<exists>xs. data = PList xs \<and> PStr ''side'' \<in> set xs \<and> PStr ''quantity'' \<in> set xs)
      \<or> (\<exists>t. data = PStr t \<and> is_substring ''side'' t \<and> is_substring ''quantity'' t)
     \<longrightarrow> api_ordem L W data s = (Inl TypeError, s))
   \<and> (\<forall>d sv qv e. data = PDict d \<and> map_of d ''side'' = Some sv
          \<and> map_of d ''quantity'' = Some qv \<and> py_upper sv = Inl e
        \<longrightarrow> api_ordem L W data s = (Inl e, s))
   \<and> (\<forall>d sv qv sd e. data = PDict d \<and> map_of d ''side'' = Some sv
          \<and> map_of d ''quantity'' = Some qv \<and> py_upper sv = Inr sd \<and> py_float L qv = Inl e
        \<longrightarrow> api_ordem L W data s = (Inl e, s))"
  by (auto simp: api_ordem_def)

lemma api_ordem_conversion_raises:
  "api_ordem demo_lib demo_world
      (PDict [(''side'', PStr ''buy''), (''quantity'', PStr ''abc'')]) init_state
     = (Inl ValueError, init_state)
   \<and> api_ordem demo_lib demo_world
      (PDict [(''side'', PFloat (Finite 1)), (''quantity'', PStr ''1.0'')]) init_state
     = (Inl AttributeError, init_state)
   \<and> api_ordem demo_lib demo_world (PInt 5) init_state = (Inl TypeError, init_state)
   \<and> api_ordem demo_lib demo_world (PBool True) init_state = (Inl TypeError, init_state)
   \<and> api_ordem demo_lib demo_world (PStr ''side quantity'') init_state
     = (Inl TypeError, init_state)
   \<and> api_ordem demo_lib demo_world (PList [PStr ''side'', PStr ''quantity'']) init_state
     = (Inl TypeError, init_state)
   \<and> api_ordem demo_lib demo_world (PDict [(''side'', PStr ''buy'')]) init_state
     = (Inr (Response 400 (PDict [(''erro'', PStr msg_fields)])), init_state)"
  by (simp add: api_ordem_def demo_lib_def)





section \<open>The same operation appended twice\<close>

text \<open>
  The same operation appended twice in succession: the second block links to the
  hash of the first, and its hash is the digest of that hash followed by the same
  JSON text. The two hashes are the digests of two texts that differ exactly when
  the first hash differs from the hash it was linked to.
\<close>

lemma same_operation_twice:
  assumes "tip chain = Some p"
  shows "\<exists>b1 b2. appends L [(t1, operation), (t2, operation)] chain = Inr (chain @ [b1, b2])
     \<and> str_field b1 ''prev_hash'' = Some p
     \<and> str_field b1 ''hash'' = Some (sha256_hexdigest L (p @ json_dumps L (PDict operation)))
     \<and> str_field b2 ''prev_hash'' = str_field b1 ''hash''
     \<and> str_field b2 ''hash''
          = Some (sha256_hexdigest L
              (sha256_hexdigest L (p @ json_dumps L (PDict operation))
                 @ json_dumps L (PDict operation)))"
  using appends_blocks_from [OF assms, of L "[(t1, operation), (t2, operation)]"]
  by (simp add: str_field_def)

end
